theory Spec2Isabelle
  imports Complex_Main "HOL-Library.AList"
begin

section \<open>Species allow-list\<close>

text \<open>
  Every route of the dashboard carries its own copy of the same table and predicate:
  \<^verbatim>\<open>
  const WILD_CAT_SPECIES = ['tiger', 'leopard', 'jaguar', 'lion', 'cheetah',
    'snow leopard', 'clouded leopard', 'puma', 'lynx']
  function isWildCat(className: string): boolean {
    return WILD_CAT_SPECIES.includes(className.toLowerCase())
  }
  \<close>
  Strings are \<open>char list\<close>. \<open>toLowerCase\<close> maps the letters A to Z; a character
  outside ASCII never lower-cases to a letter of one of the nine names, so the predicate
  does not depend on how the other characters are mapped.
\<close>

definition lower_char :: "char \<Rightarrow> char" where
  "lower_char c =
     (case map_of (zip ''ABCDEFGHIJKLMNOPQRSTUVWXYZ'' ''abcdefghijklmnopqrstuvwxyz'') c of
        Some l \<Rightarrow> l
      | None \<Rightarrow> c)"

definition toLowerCase :: "string \<Rightarrow> string" where
  "toLowerCase s = map lower_char s"

definition WILD_CAT_SPECIES :: "string list" where
  "WILD_CAT_SPECIES =
     [''tiger'', ''leopard'', ''jaguar'', ''lion'', ''cheetah'',
      ''snow leopard'', ''clouded leopard'', ''puma'', ''lynx'']"

definition isWildCat :: "string \<Rightarrow> bool" where
  "isWildCat className = (toLowerCase className \<in> set WILD_CAT_SPECIES)"

section \<open>JavaScript values used by the routes\<close>

text \<open>
  A number that may be \<open>NaN\<close>: the result of \<open>parseInt\<close> on a query parameter.
\<close>

datatype jsnum = NaN | Num int

text \<open>
  \<open>xs.slice(0, end)\<close>: \<open>NaN\<close> counts as 0, a negative end counts from the end of the
  array, and the result never reaches past the array.
\<close>

definition slice0 :: "'a list \<Rightarrow> jsnum \<Rightarrow> 'a list" where
  "slice0 xs e =
     (let len = int (length xs);
          relativeEnd = (case e of NaN \<Rightarrow> 0 | Num n \<Rightarrow> n);
          final = (if relativeEnd < 0 then max (len + relativeEnd) 0 else min relativeEnd len)
      in take (nat final) xs)"

text \<open>
  \<open>xs.splice(1000)\<close> under the guard \<open>xs.length > 1000\<close>, as both stores and the
  audit log use it.
\<close>

definition keep_last_1000 :: "'a list \<Rightarrow> 'a list" where
  "keep_last_1000 xs = (if length xs > 1000 then take 1000 xs else xs)"

text \<open>\<open>s || dflt\<close> on an optional string: absent and empty are both falsy.\<close>

fun truthy :: "string option \<Rightarrow> string option" where
  "truthy None = None"
| "truthy (Some s) = (if s = [] then None else Some s)"

text \<open>Decimal text of a number, as a template literal prints it.\<close>

fun show_nat :: "nat \<Rightarrow> string" where
  "show_nat n =
     (if n < 10 then [''0123456789'' ! n]
      else show_nat (n div 10) @ [''0123456789'' ! (n mod 10)])"

declare show_nat.simps [simp del]

definition show_int :: "int \<Rightarrow> string" where
  "show_int i = (if i < 0 then CHR ''-'' # show_nat (nat (- i)) else show_nat (nat i))"

text \<open>
  \<open>new Date(timestamp * 1000).toISOString()\<close> on a payload's epoch seconds. A stored
  ISO string is represented by the instant it denotes, in milliseconds since the epoch
  (\<open>new Date(iso).getTime()\<close> reads exactly that instant back). A missing timestamp
  makes the product \<open>NaN\<close>, and a date outside \<open>\<plusminus>8.64e15\<close> ms is invalid: in both
  cases \<open>toISOString\<close> throws a RangeError. Timestamps are whole seconds here.
\<close>

datatype js_error = TypeError | RangeError

definition toISOString :: "int option \<Rightarrow> js_error + int" where
  "toISOString t =
     (case t of
        None \<Rightarrow> Inl RangeError
      | Some s \<Rightarrow> if \<bar>s * 1000\<bar> \<le> 8640000000000000 then Inr (s * 1000) else Inl RangeError)"

section \<open>Data model\<close>

text \<open>
  Modelled from the spec: the type declarations of \<open>@/types\<close> (\<open>Device\<close>,
  \<open>Detection\<close>, \<open>DetectionPayload\<close>, \<open>DashboardStats\<close>) are not among the
  sources. The records below have the fields the routes read and write, typed as the
  data model of the specification describes them; an optional field is an \<open>option\<close>.
\<close>

datatype DeviceStatus = Online | Offline | Error

record DeviceStats =
  detectionCount :: "nat option"

record Device =
  name :: string
  lastSeen :: int
  status :: DeviceStatus
  stats :: DeviceStats

record Location =
  loc_name :: string
  latitude :: real
  longitude :: real

record PayloadMetadata =
  processing_time_ms :: "real option"
  priority :: "string option"
  frame_timestamp :: "real option"
  device_info :: "string option"
  upload_timestamp :: "real option"

record DetectionMetadata =
  processingTimeMs :: "real option"
  priority' :: "string option"
  frameTimestamp :: "real option"
  deviceInfo :: "string option"
  uploadTimestamp :: "real option"

text \<open>
  The request body of both POST routes (a batch item carries the same fields). A field
  whose name the stored record shares is primed.
\<close>

record DetectionPayload =
  event_id :: "string option"
  detection_id :: "int option"
  device_id :: "string option"
  camera_id :: "string option"
  timestamp' :: "int option"
  class_name :: "string option"
  class_id :: "int option"
  confidence' :: real
  bbox' :: "real list option"
  image_base64 :: "string option"
  location' :: "Location option"
  metadata' :: "PayloadMetadata option"

text \<open>The stored detection; \<open>det_id\<close> is the source's field \<open>id\<close>.\<close>

record Detection =
  det_id :: int
  eventId :: "string option"
  deviceId :: string
  deviceName :: string
  cameraId :: "string option"
  timestamp :: int
  className :: string
  confidence :: real
  bbox :: "real list"
  imageUrl :: "string option"
  location :: "Location option"
  metadata :: "DetectionMetadata option"

text \<open>An entry of \<open>detectionEventLog\<close> and its \<open>details\<close> object.\<close>

record EventDetails =
  details_className :: string
  details_confidence :: real
  hasImage :: bool
  details_cameraId :: "string option"
  details_location :: "string option"
  details_priority :: "string option"

record EventLogEntry =
  log_eventId :: string
  log_deviceId :: string
  log_timestamp :: int
  action :: string
  details :: EventDetails

text \<open>
  Modelled from the spec: \<open>@/lib/auth\<close> (\<open>getDeviceStore\<close>, \<open>getDetectionStore\<close>,
  \<open>verifyRequest\<close>, \<open>broadcastDeviceUpdate\<close>) is not among the sources. The
  specification describes the two stores as module-level maps kept in process memory;
  the routes use them through \<open>get\<close>, \<open>set\<close> and \<open>values\<close>, and a \<open>Map\<close> hands
  out the stored array or object itself, not a copy.

  The process-wide state: \<open>deviceStore\<close> is a \<open>Map\<close> from device id to device (an
  association list in insertion order), \<open>detectionStore\<close> a \<open>Map\<close> whose only key is
  \<open>'all'\<close> (\<open>None\<close> while the key is absent), \<open>detectionEventLog\<close> the module-level
  audit array, and \<open>broadcasts\<close> the devices handed to \<open>broadcastDeviceUpdate\<close>, oldest
  first.
\<close>

record server =
  deviceStore :: "(string \<times> Device) list"
  detectionStore :: "Detection list option"
  detectionEventLog :: "EventLogEntry list"
  broadcasts :: "Device list"

text \<open>\<open>detectionStore.get('all') || []\<close>\<close>

definition stored :: "server \<Rightarrow> Detection list" where
  "stored s = (case detectionStore s of None \<Rightarrow> [] | Some ds \<Rightarrow> ds)"

section \<open>Read endpoints\<close>

text \<open>
  The query of a GET: \<open>q_limit\<close> is what \<open>parseInt\<close> makes of the \<open>limit\<close> parameter
  (\<open>None\<close> when the parameter is absent or empty, so that the default applies),
  \<open>q_device_id\<close> the \<open>device_id\<close> parameter.
\<close>

record query =
  q_limit :: "jsnum option"
  q_device_id :: "string option"

definition parse_limit :: "jsnum option \<Rightarrow> int \<Rightarrow> jsnum" where
  "parse_limit q dflt = (case q of None \<Rightarrow> Num dflt | Some v \<Rightarrow> v)"

record DetectionsResponse =
  detections :: "Detection list"
  count :: nat

text \<open>\<open>GET /api/detections\<close>\<close>

definition GET_detections :: "server \<Rightarrow> query \<Rightarrow> DetectionsResponse" where
  "GET_detections s q =
     (let limit = parse_limit (q_limit q) 50;
          ds0 = stored s;
          ds1 = filter (\<lambda>d. isWildCat (className d)) ds0;
          ds2 = (case truthy (q_device_id q) of
                   Some dev \<Rightarrow> filter (\<lambda>d. deviceId d = dev) ds1
                 | None \<Rightarrow> ds1);
          ds3 = slice0 ds2 limit
      in \<lparr>detections = ds3, count = length ds3\<rparr>)"

record LogsResponse =
  logs :: "EventLogEntry list"
  logs_count :: nat

text \<open>\<open>GET /api/devices/detections\<close>, the audit log; \<open>logs_count\<close> is its \<open>count\<close>.\<close>

definition GET_logs :: "server \<Rightarrow> query \<Rightarrow> LogsResponse" where
  "GET_logs s q =
     (let limit = parse_limit (q_limit q) 100;
          ls = (case truthy (q_device_id q) of
                  Some dev \<Rightarrow> filter (\<lambda>l. log_deviceId l = dev) (detectionEventLog s)
                | None \<Rightarrow> detectionEventLog s)
      in \<lparr>logs = slice0 ls limit, logs_count = length ls\<rparr>)"

section \<open>Write endpoints\<close>

text \<open>
  \<open>NextResponse.json(body, {status})\<close>: the status (200 when none is given) and the
  body. \<open>Failure e\<close> is \<open>{success: false, error: e}\<close>; the other two bodies have
  \<open>success: true\<close> and carry \<open>message, event_id, detection_id\<close> and
  \<open>message, count\<close>.
\<close>

datatype json_body =
    Failure string
  | DetectionRecorded string string int
  | BatchRecorded string nat

record response =
  http_status :: nat
  body :: json_body

fun success :: "json_body \<Rightarrow> bool" where
  "success (Failure e) = False"
| "success (DetectionRecorded m e i) = True"
| "success (BatchRecorded m c) = True"

text \<open>
  A request to the single-detection route: \<open>authorized\<close> is \<open>verifyRequest(request).valid\<close>
  (the credential check is not part of these routes), \<open>payload\<close> the parsed body.
\<close>

record DetectionRequest =
  authorized :: bool
  payload :: DetectionPayload

text \<open>
  A request to the batch route; \<open>incomingDetections\<close> is \<open>None\<close> when the body's
  \<open>detections\<close> is not an array.
\<close>

record BatchRequest =
  batch_authorized :: bool
  batch_device_id :: "string option"
  incomingDetections :: "DetectionPayload list option"

text \<open>\<open>device?.name || device_id\<close>\<close>

definition display_name :: "Device option \<Rightarrow> string \<Rightarrow> string" where
  "display_name device dev =
     (case device of
        None \<Rightarrow> dev
      | Some d \<Rightarrow> if name d = [] then dev else name d)"

text \<open>\<open>x || Date.now()\<close> on an optional number: absent and 0 are both falsy.\<close>

definition id_or :: "int option \<Rightarrow> int \<Rightarrow> int" where
  "id_or x dflt = (case x of None \<Rightarrow> dflt | Some n \<Rightarrow> if n = 0 then dflt else n)"

definition image_url :: "string option \<Rightarrow> string option" where
  "image_url b = map_option (\<lambda>x. ''data:image/jpeg;base64,'' @ x) (truthy b)"

definition logDetectionEvent ::
  "int \<Rightarrow> string \<Rightarrow> string \<Rightarrow> string \<Rightarrow> EventDetails \<Rightarrow> EventLogEntry list \<Rightarrow> EventLogEntry list"
where
  "logDetectionEvent now eid dev act det lg =
     keep_last_1000
       (\<lparr>log_eventId = eid, log_deviceId = dev, log_timestamp = now,
         action = act, details = det\<rparr> # lg)"

text \<open>
  The detection record the single route builds, given the ISO timestamp already
  computed. \<open>now\<close> stands for every \<open>Date.now()\<close> and \<open>new Date()\<close> of one request.
\<close>

definition single_detection ::
  "int \<Rightarrow> string \<Rightarrow> string \<Rightarrow> string \<Rightarrow> string \<Rightarrow> int \<Rightarrow> DetectionPayload \<Rightarrow> Detection"
where
  "single_detection now eid dev dname cn isoTime p =
     \<lparr>det_id = id_or (detection_id p) now,
      eventId = Some eid,
      deviceId = dev,
      deviceName = dname,
      cameraId = camera_id p,
      timestamp = isoTime,
      className = cn,
      confidence = confidence' p,
      bbox = (case bbox' p of None \<Rightarrow> [] | Some b \<Rightarrow> b),
      imageUrl = image_url (image_base64 p),
      location = map_option
        (\<lambda>l. \<lparr>loc_name = loc_name l, latitude = latitude l, longitude = longitude l\<rparr>)
        (location' p),
      metadata = map_option
        (\<lambda>m. \<lparr>processingTimeMs = processing_time_ms m, priority' = priority m,
              frameTimestamp = frame_timestamp m, deviceInfo = device_info m,
              uploadTimestamp = upload_timestamp m\<rparr>)
        (metadata' p)\<rparr>"

text \<open>The device update of the single route, on a device found in the registry.\<close>

definition touch_online :: "int \<Rightarrow> Device \<Rightarrow> Device" where
  "touch_online now d =
     d\<lparr>stats := (stats d)\<lparr>detectionCount :=
                    Some ((case detectionCount (stats d) of None \<Rightarrow> 0 | Some c \<Rightarrow> c) + 1)\<rparr>,
       lastSeen := now,
       status := Online\<rparr>"

text \<open>
  \<open>POST /api/devices/detections\<close>. The only operation of the body that can throw is
  \<open>toISOString\<close>, while the detection is built and before any store is touched; the
  \<open>catch\<close> answers 500.
\<close>

definition POST_detection :: "int \<Rightarrow> server \<Rightarrow> DetectionRequest \<Rightarrow> server \<times> response" where
  "POST_detection now s rq =
     (if \<not> authorized rq then (s, \<lparr>http_status = 401, body = Failure ''Unauthorized''\<rparr>)
      else
        let p = payload rq in
        case (truthy (device_id p), truthy (class_name p)) of
          (Some dev, Some cn) \<Rightarrow>
            if \<not> isWildCat cn
            then (s, \<lparr>http_status = 400, body = Failure ''Only wild cat species are allowed''\<rparr>)
            else
              let device = map_of (deviceStore s) dev;
                  dname = display_name device dev;
                  eid = (case truthy (event_id p) of
                           Some e \<Rightarrow> e
                         | None \<Rightarrow> ''det_'' @ dev @ ''_'' @ show_int now)
              in (case toISOString (timestamp' p) of
                    Inl e \<Rightarrow>
                      (s, \<lparr>http_status = 500, body = Failure ''Failed to record detection''\<rparr>)
                  | Inr isoTime \<Rightarrow>
                      let detection = single_detection now eid dev dname cn isoTime p;
                          s1 = s\<lparr>detectionStore := Some (keep_last_1000 (detection # stored s))\<rparr>;
                          s2 = (case device of
                                  None \<Rightarrow> s1
                                | Some d \<Rightarrow>
                                    s1\<lparr>deviceStore :=
                                          AList.update dev (touch_online now d) (deviceStore s1),
                                        broadcasts := broadcasts s1 @ [touch_online now d]\<rparr>);
                          s3 = s2\<lparr>detectionEventLog :=
                                    logDetectionEvent now eid dev ''detection_received''
                                      \<lparr>details_className = cn,
                                       details_confidence = confidence' p,
                                       hasImage = (truthy (image_base64 p) \<noteq> None),
                                       details_cameraId = camera_id p,
                                       details_location = map_option loc_name (location' p),
                                       details_priority =
                                         (case metadata' p of None \<Rightarrow> None | Some m \<Rightarrow> priority m)\<rparr>
                                      (detectionEventLog s2)\<rparr>
                      in (s3, \<lparr>http_status = 200,
                               body = DetectionRecorded ''Detection recorded'' eid (det_id detection)\<rparr>))
        | _ \<Rightarrow> (s, \<lparr>http_status = 400, body = Failure ''Missing required fields''\<rparr>))"

text \<open>The detection record the batch route builds for one item.\<close>

definition batch_detection ::
  "int \<Rightarrow> string \<Rightarrow> string \<Rightarrow> string \<Rightarrow> int \<Rightarrow> nat \<Rightarrow> DetectionPayload \<Rightarrow> Detection"
where
  "batch_detection now dev dname cn isoTime addedCount p =
     \<lparr>det_id = id_or (detection_id p) (now + int addedCount),
      eventId = None,
      deviceId = dev,
      deviceName = dname,
      cameraId = None,
      timestamp = isoTime,
      className = cn,
      confidence = confidence' p,
      bbox = (case bbox' p of None \<Rightarrow> [] | Some b \<Rightarrow> b),
      imageUrl = image_url (image_base64 p),
      location = None,
      metadata = None\<rparr>"

text \<open>
  The \<open>for\<close> loop of the batch route over the remaining items, with the array
  \<open>storedDetections\<close> and the two counters. An item without \<open>class_name\<close> makes
  \<open>isWildCat\<close> throw a TypeError, an allow-listed item without a valid timestamp makes
  \<open>toISOString\<close> throw; the loop then stops, and the array keeps what was unshifted
  before.
\<close>

fun batch_loop ::
  "int \<Rightarrow> string \<Rightarrow> string \<Rightarrow> DetectionPayload list \<Rightarrow> Detection list \<Rightarrow> nat \<Rightarrow> nat
   \<Rightarrow> (js_error \<times> Detection list) + (Detection list \<times> nat \<times> nat)"
where
  "batch_loop now dev dname [] arr addedCount rejectedCount =
     Inr (arr, addedCount, rejectedCount)"
| "batch_loop now dev dname (p # rest) arr addedCount rejectedCount =
     (case class_name p of
        None \<Rightarrow> Inl (TypeError, arr)
      | Some cn \<Rightarrow>
          if \<not> isWildCat cn
          then batch_loop now dev dname rest arr addedCount (rejectedCount + 1)
          else (case toISOString (timestamp' p) of
                  Inl e \<Rightarrow> Inl (e, arr)
                | Inr isoTime \<Rightarrow>
                    batch_loop now dev dname rest
                      (batch_detection now dev dname cn isoTime addedCount p # arr)
                      (addedCount + 1) rejectedCount))"

text \<open>The device update of the batch route.\<close>

definition touch_batch :: "int \<Rightarrow> nat \<Rightarrow> Device \<Rightarrow> Device" where
  "touch_batch now addedCount d =
     d\<lparr>stats := (stats d)\<lparr>detectionCount :=
                    Some ((case detectionCount (stats d) of None \<Rightarrow> 0 | Some c \<Rightarrow> c) + addedCount)\<rparr>,
       lastSeen := now\<rparr>"

text \<open>
  \<open>POST /api/devices/detections/batch\<close>. \<open>storedDetections\<close> is the array the store
  holds under \<open>'all'\<close> when that key exists, and a fresh array otherwise; \<open>unshift\<close>
  changes it in place. When the loop throws, \<open>detectionStore.set\<close> is never reached:
  the store then holds the array as the loop left it if the key existed, and stays
  without the key otherwise.
\<close>

definition POST_batch :: "int \<Rightarrow> server \<Rightarrow> BatchRequest \<Rightarrow> server \<times> response" where
  "POST_batch now s rq =
     (if \<not> batch_authorized rq then (s, \<lparr>http_status = 401, body = Failure ''Unauthorized''\<rparr>)
      else
        case (truthy (batch_device_id rq), incomingDetections rq) of
          (Some dev, Some items) \<Rightarrow>
            let device = map_of (deviceStore s) dev;
                dname = display_name device dev
            in (case batch_loop now dev dname items (stored s) 0 0 of
                  Inl (e, arr) \<Rightarrow>
                    (s\<lparr>detectionStore := map_option (\<lambda>old. arr) (detectionStore s)\<rparr>,
                     \<lparr>http_status = 500, body = Failure ''Failed to record detections''\<rparr>)
                | Inr (arr, addedCount, rejectedCount) \<Rightarrow>
                    let s1 = s\<lparr>detectionStore := Some (keep_last_1000 arr)\<rparr>;
                        s2 = (case device of
                                None \<Rightarrow> s1
                              | Some d \<Rightarrow>
                                  s1\<lparr>deviceStore :=
                                        AList.update dev (touch_batch now addedCount d)
                                          (deviceStore s1)\<rparr>)
                    in (s2, \<lparr>http_status = 200,
                             body = BatchRecorded
                               (show_nat addedCount @ '' detections recorded'') addedCount\<rparr>))
        | _ \<Rightarrow> (s, \<lparr>http_status = 400, body = Failure ''Missing required fields''\<rparr>))"

section \<open>Dashboard statistics\<close>

record HourBucket =
  hour :: string
  bucket_count :: nat

text \<open>
  \<open>classDistribution\<close> is an object; it is represented by its entries in property
  order, which for keys that are not array indices is the order in which the keys were
  first assigned. No class name that passes \<open>isWildCat\<close> is an array index.
\<close>

record DashboardStats =
  totalDevices :: nat
  onlineDevices :: nat
  totalDetections24h :: nat
  totalDetectionsWeek :: nat
  classDistribution :: "(string \<times> nat) list"
  hourlyDetections :: "HourBucket list"

text \<open>
  \<open>for (const d of detections24h)
     classDistribution[d.className] = (classDistribution[d.className] || 0) + 1\<close>
\<close>

fun tally :: "(string \<times> nat) list \<Rightarrow> Detection list \<Rightarrow> (string \<times> nat) list" where
  "tally cd [] = cd"
| "tally cd (d # ds) =
     tally
       (AList.update (className d)
          ((case map_of cd (className d) of None \<Rightarrow> 0 | Some n \<Rightarrow> n) + 1) cd)
       ds"

text \<open>
  \<open>entries.sort(([, a], [, b]) => b - a)\<close>: \<open>Array.prototype.sort\<close> is stable, and the
  comparator orders by descending count.
\<close>

definition sort_entries :: "(string \<times> nat) list \<Rightarrow> (string \<times> nat) list" where
  "sort_entries es = sort_key (\<lambda>e. - int (snd e)) es"

text \<open>
  One pass of the loop \<open>for (let i = 23; i >= 0; i--)\<close>: the bucket for \<open>i\<close>.
  \<open>getHours\<close> is \<open>new Date(t).getHours()\<close>, the clock hour of an instant in the
  server's time zone.
\<close>

definition hour_bucket :: "(int \<Rightarrow> nat) \<Rightarrow> int \<Rightarrow> Detection list \<Rightarrow> nat \<Rightarrow> HourBucket" where
  "hour_bucket getHours now ds i =
     (let hourStart = now - (int i + 1) * 60 * 60 * 1000;
          hourEnd = now - int i * 60 * 60 * 1000
      in \<lparr>hour = show_nat (getHours hourEnd) @ '':00'',
          bucket_count = length (filter (\<lambda>d. timestamp d \<ge> hourStart \<and> timestamp d < hourEnd) ds)\<rparr>)"

fun hourly_loop :: "(int \<Rightarrow> nat) \<Rightarrow> int \<Rightarrow> Detection list \<Rightarrow> nat \<Rightarrow> HourBucket list" where
  "hourly_loop getHours now ds 0 = [hour_bucket getHours now ds 0]"
| "hourly_loop getHours now ds (Suc i) =
     hour_bucket getHours now ds (Suc i) # hourly_loop getHours now ds i"

text \<open>\<open>GET /api/stats\<close> at the instant \<open>now = Date.now()\<close>.\<close>

definition GET_stats :: "(int \<Rightarrow> nat) \<Rightarrow> int \<Rightarrow> server \<Rightarrow> DashboardStats" where
  "GET_stats getHours now s =
     (let devices = map snd (deviceStore s);
          ds = filter (\<lambda>d. isWildCat (className d)) (stored s);
          oneDayAgo = now - 24 * 60 * 60 * 1000;
          oneWeekAgo = now - 7 * 24 * 60 * 60 * 1000;
          online = length (filter (\<lambda>d. now - lastSeen d < 120000) devices);
          detections24h = filter (\<lambda>d. timestamp d > oneDayAgo) ds;
          detectionsWeek = filter (\<lambda>d. timestamp d > oneWeekAgo) ds
      in \<lparr>totalDevices = length devices,
          onlineDevices = online,
          totalDetections24h = length detections24h,
          totalDetectionsWeek = length detectionsWeek,
          classDistribution = sort_entries (tally [] detections24h),
          hourlyDetections = hourly_loop getHours now ds 23\<rparr>)"

section \<open>Request sequences\<close>

text \<open>
  The two write routes are the only code that changes the stores. A request carries the
  clock reading of its handling.
\<close>

datatype request = Single int DetectionRequest | Batch int BatchRequest

fun step :: "server \<Rightarrow> request \<Rightarrow> server \<times> response" where
  "step s (Single now rq) = POST_detection now s rq"
| "step s (Batch now rq) = POST_batch now s rq"

fun run :: "server \<Rightarrow> request list \<Rightarrow> server" where
  "run s [] = s"
| "run s (r # rs) = run (fst (step s r)) rs"

text \<open>No request of the sequence ends in a \<open>catch\<close> branch.\<close>

fun no_failure :: "server \<Rightarrow> request list \<Rightarrow> bool" where
  "no_failure s [] = True"
| "no_failure s (r # rs) =
     (http_status (snd (step s r)) \<noteq> 500 \<and> no_failure (fst (step s r)) rs)"

section \<open>Vocabulary of the properties\<close>

text \<open>The entries and detections a query selects, before \<open>slice\<close>.\<close>

definition matching_logs :: "server \<Rightarrow> query \<Rightarrow> EventLogEntry list" where
  "matching_logs s q =
     (case truthy (q_device_id q) of
        Some dev \<Rightarrow> filter (\<lambda>l. log_deviceId l = dev) (detectionEventLog s)
      | None \<Rightarrow> detectionEventLog s)"

definition matching_detections :: "server \<Rightarrow> query \<Rightarrow> Detection list" where
  "matching_detections s q =
     (case truthy (q_device_id q) of
        Some dev \<Rightarrow> filter (\<lambda>d. isWildCat (className d) \<and> deviceId d = dev) (stored s)
      | None \<Rightarrow> filter (\<lambda>d. isWildCat (className d)) (stored s))"

text \<open>The event id the single route uses: the caller's, or a generated one.\<close>

definition event_id_of :: "int \<Rightarrow> string \<Rightarrow> DetectionPayload \<Rightarrow> string" where
  "event_id_of now dev p =
     (case truthy (event_id p) of
        Some e \<Rightarrow> e
      | None \<Rightarrow> ''det_'' @ dev @ ''_'' @ show_int now)"

text \<open>
  A batch item is accepted when its class name is allow-listed, and rejected otherwise.
  It is well formed when the loop can handle it without throwing: it has a class name
  and, if accepted, a timestamp that is a valid date.
\<close>

definition accepts :: "DetectionPayload \<Rightarrow> bool" where
  "accepts p = (case class_name p of None \<Rightarrow> False | Some cn \<Rightarrow> isWildCat cn)"

definition well_formed_item :: "DetectionPayload \<Rightarrow> bool" where
  "well_formed_item p =
     (case class_name p of
        None \<Rightarrow> False
      | Some cn \<Rightarrow>
          (if isWildCat cn then toISOString (timestamp' p) \<noteq> Inl RangeError else True))"

text \<open>
  The records of the accepted items of a batch, in arrival order; the \<open>i\<close>-th of them
  is built when \<open>addedCount\<close> is \<open>k + i\<close>.
\<close>

definition item_detection :: "int \<Rightarrow> string \<Rightarrow> string \<Rightarrow> nat \<Rightarrow> DetectionPayload \<Rightarrow> Detection" where
  "item_detection now dev dname i p =
     batch_detection now dev dname
       (case class_name p of Some cn \<Rightarrow> cn | None \<Rightarrow> [])
       (case toISOString (timestamp' p) of Inr t \<Rightarrow> t | Inl e \<Rightarrow> 0) i p"

definition batch_detections ::
  "int \<Rightarrow> string \<Rightarrow> string \<Rightarrow> nat \<Rightarrow> DetectionPayload list \<Rightarrow> Detection list"
where
  "batch_detections now dev dname k items =
     map (\<lambda>(i, p). item_detection now dev dname i p)
       (zip [k ..< k + length (filter accepts items)] (filter accepts items))"

text \<open>The records one request puts into the store, in the order of their insertion.\<close>

fun inserted :: "server \<Rightarrow> request \<Rightarrow> Detection list" where
  "inserted s (Single now rq) =
     (if authorized rq then
        (case (truthy (device_id (payload rq)), truthy (class_name (payload rq)),
               toISOString (timestamp' (payload rq))) of
           (Some dev, Some cn, Inr ts) \<Rightarrow>
             if isWildCat cn
             then [single_detection now (event_id_of now dev (payload rq)) dev
                     (display_name (map_of (deviceStore s) dev) dev) cn ts (payload rq)]
             else []
         | _ \<Rightarrow> [])
      else [])"
| "inserted s (Batch now rq) =
     (if batch_authorized rq then
        (case (truthy (batch_device_id rq), incomingDetections rq) of
           (Some dev, Some items) \<Rightarrow>
             batch_detections now dev (display_name (map_of (deviceStore s) dev) dev) 0 items
         | _ \<Rightarrow> [])
      else [])"

fun inserted_all :: "server \<Rightarrow> request list \<Rightarrow> Detection list" where
  "inserted_all s [] = []"
| "inserted_all s (r # rs) = inserted s r @ inserted_all (fst (step s r)) rs"

text \<open>The value of a device's counter, as \<open>device.stats.detectionCount || 0\<close> reads it.\<close>

definition counter :: "Device \<Rightarrow> nat" where
  "counter d = (case detectionCount (stats d) of None \<Rightarrow> 0 | Some c \<Rightarrow> c)"

text \<open>
  The distinct elements of a list in the order of their first occurrence, and the
  frequency table of a list of class names in that order.
\<close>

fun first_seen :: "'a list \<Rightarrow> 'a list" where
  "first_seen [] = []"
| "first_seen (x # xs) = x # filter (\<lambda>y. y \<noteq> x) (first_seen xs)"

definition freq_table :: "string list \<Rightarrow> (string \<times> nat) list" where
  "freq_table cs = map (\<lambda>c. (c, count_list cs c)) (first_seen cs)"

text \<open>The class names of the detections of the trailing 24 hours, most recent first.\<close>

definition classes24h :: "int \<Rightarrow> server \<Rightarrow> string list" where
  "classes24h now s =
     map className
       (filter (\<lambda>d. isWildCat (className d) \<and> timestamp d > now - 24 * 60 * 60 * 1000)
          (stored s))"

text \<open>Every detection of a list has an allow-listed class name.\<close>

definition wild_only :: "Detection list \<Rightarrow> bool" where
  "wild_only ds = (\<forall>d \<in> set ds. isWildCat (className d))"

section \<open>Example values\<close>

definition empty_server :: server where
  "empty_server =
     \<lparr>deviceStore = [], detectionStore = None, detectionEventLog = [], broadcasts = []\<rparr>"

text \<open>\<open>{device_id, class_name, confidence, timestamp}\<close>, every other field absent.\<close>

definition example_payload :: "string \<Rightarrow> string \<Rightarrow> real \<Rightarrow> int \<Rightarrow> DetectionPayload" where
  "example_payload dev cn c t =
     \<lparr>event_id = None, detection_id = None, device_id = Some dev, camera_id = None,
      timestamp' = Some t, class_name = Some cn, class_id = None, confidence' = c,
      bbox' = None, image_base64 = None, location' = None, metadata' = None\<rparr>"

definition example_detection :: "string \<Rightarrow> string \<Rightarrow> int \<Rightarrow> Detection" where
  "example_detection dev cn t =
     \<lparr>det_id = t, eventId = None, deviceId = dev, deviceName = dev, cameraId = None,
      timestamp = t, className = cn, confidence = 9 / 10, bbox = [], imageUrl = None,
      location = None, metadata = None\<rparr>"

definition example_device :: "DeviceStatus \<Rightarrow> int \<Rightarrow> Device" where
  "example_device st seen =
     \<lparr>name = ''Camera 1'', lastSeen = seen, status = st,
      stats = \<lparr>detectionCount = Some 0\<rparr>\<rparr>"

definition dog_request :: DetectionRequest where
  "dog_request =
     \<lparr>authorized = True, payload = example_payload ''cam-1'' ''dog'' (99 / 100) 1700000000\<rparr>"

definition tiger_request :: DetectionRequest where
  "tiger_request =
     \<lparr>authorized = True, payload = example_payload ''cam-1'' ''Tiger'' (92 / 100) 1700000000\<rparr>"

definition cam1_query :: query where
  "cam1_query = \<lparr>q_limit = None, q_device_id = Some ''cam-1''\<rparr>"

definition offline_server :: server where
  "offline_server = empty_server\<lparr>deviceStore := [(''cam-1'', example_device Offline 0)]\<rparr>"

definition tiger_batch :: "nat \<Rightarrow> BatchRequest" where
  "tiger_batch n =
     \<lparr>batch_authorized = True, batch_device_id = Some ''cam-1'',
      incomingDetections =
        Some (replicate n (example_payload ''cam-1'' ''tiger'' (9 / 10) 1700000000))\<rparr>"

definition two_stored :: server where
  "two_stored =
     empty_server\<lparr>detectionStore :=
       Some [example_detection ''cam-1'' ''tiger'' 2000,
             example_detection ''cam-1'' ''lion'' 1000]\<rparr>"

definition mixed_batch :: BatchRequest where
  "mixed_batch =
     \<lparr>batch_authorized = True, batch_device_id = Some ''cam-1'',
      incomingDetections =
        Some [example_payload ''cam-1'' ''tiger'' (9 / 10) 1700000000,
              example_payload ''cam-1'' ''dog'' (9 / 10) 1700000001,
              example_payload ''cam-1'' ''Lion'' (8 / 10) 1700000002,
              example_payload ''cam-1'' ''cat'' (7 / 10) 1700000003,
              example_payload ''cam-1'' ''snow leopard'' (6 / 10) 1700000004]\<rparr>"

definition five_stored :: server where
  "five_stored =
     empty_server\<lparr>detectionStore :=
       Some [example_detection ''cam-1'' ''tiger'' 1699999999000,
             example_detection ''cam-2'' ''lion'' 1699999998000,
             example_detection ''cam-1'' ''tiger'' 1699999997000,
             example_detection ''cam-2'' ''lion'' 1699999996000,
             example_detection ''cam-1'' ''tiger'' 1699999995000,
             example_detection ''cam-1'' ''leopard'' 1699910000000]\<rparr>"

definition day_old_stored :: server where
  "day_old_stored =
     empty_server\<lparr>detectionStore :=
       Some [example_detection ''cam-1'' ''tiger'' (1700000000000 - 24 * 60 * 60 * 1000)]\<rparr>"

text \<open>A batch whose second item has no timestamp.\<close>

definition broken_batch :: BatchRequest where
  "broken_batch =
     \<lparr>batch_authorized = True, batch_device_id = Some ''cam-1'',
      incomingDetections =
        Some [example_payload ''cam-1'' ''tiger'' (9 / 10) 1700000000,
              (example_payload ''cam-1'' ''tiger'' (9 / 10) 1700000000)\<lparr>timestamp' := None\<rparr>]\<rparr>"

text \<open>The \<open>Tiger\<close> request without its timestamp.\<close>

definition no_timestamp_request :: DetectionRequest where
  "no_timestamp_request =
     \<lparr>authorized = True,
      payload = (example_payload ''cam-1'' ''Tiger'' (92 / 100) 1700000000)\<lparr>timestamp' := None\<rparr>\<rparr>"

text \<open>A query for up to 2000 detections of any device.\<close>

definition all_query :: query where
  "all_query = \<lparr>q_limit = Some (Num 2000), q_device_id = None\<rparr>"

text \<open>\<open>getHours\<close> on a server whose time zone is UTC.\<close>

definition utc_hours :: "int \<Rightarrow> nat" where
  "utc_hours t = nat ((t div 3600000) mod 24)"

section \<open>Basic facts\<close>

lemma keep_last_1000_take: "keep_last_1000 xs = take 1000 xs"
  by (simp add: keep_last_1000_def)

lemma take_append_take: "take n (xs @ take n ys) = take n (xs @ ys)"
  by (simp add: min_def)

lemma slice0_nonneg: "0 \<le> n \<Longrightarrow> slice0 xs (Num n) = take (nat n) xs"
  by (simp add: slice0_def Let_def min_def)

lemma slice0_neg: "n < 0 \<Longrightarrow> slice0 xs (Num n) = take (length xs - nat (- n)) xs"
  by (auto simp add: slice0_def Let_def max_def intro: arg_cong2[where f=take])

lemma slice0_NaN: "slice0 xs NaN = []"
  by (simp add: slice0_def)

lemma stored_Some [simp]: "detectionStore s = Some ds \<Longrightarrow> stored s = ds"
  by (simp add: stored_def)

lemma truthy_Some: "truthy x = Some s \<Longrightarrow> x = Some s \<and> s \<noteq> []"
  by (cases x) (auto split: if_splits)

lemma toISOString_cases: "toISOString t = Inl RangeError \<or> (\<exists>ts. toISOString t = Inr ts)"
  by (simp add: toISOString_def split: option.splits)

lemma GET_detections_eq:
  "detections (GET_detections s q) =
     slice0 (matching_detections s q) (parse_limit (q_limit q) 50)"
  by (simp add: GET_detections_def matching_detections_def Let_def split: option.splits)

lemmas wildcat_eval = isWildCat_def toLowerCase_def lower_char_def WILD_CAT_SPECIES_def

lemma isWildCat_tiger: "isWildCat ''tiger''"
  by (simp add: wildcat_eval)

lemma isWildCat_lion: "isWildCat ''lion''"
  by (simp add: wildcat_eval)

lemma isWildCat_leopard: "isWildCat ''leopard''"
  by (simp add: wildcat_eval)

lemma isWildCat_Tiger: "isWildCat ''Tiger''"
  by (simp add: wildcat_eval)

lemma not_isWildCat_dog: "\<not> isWildCat ''dog''"
  by (simp add: wildcat_eval)

lemma className_example [simp]: "className (example_detection dev cn t) = cn"
  by (simp add: example_detection_def)

lemma timestamp_example [simp]: "timestamp (example_detection dev cn t) = t"
  by (simp add: example_detection_def)

lemma example_item_facts:
  "accepts (example_payload dev ''tiger'' c 1700000000)"
  "well_formed_item (example_payload dev ''tiger'' c 1700000000)"
  by (simp_all add: accepts_def well_formed_item_def example_payload_def isWildCat_tiger
      toISOString_def)

lemma tiger_batch_fields:
  "batch_authorized (tiger_batch n)"
  "truthy (batch_device_id (tiger_batch n)) = Some ''cam-1''"
  "incomingDetections (tiger_batch n) =
     Some (replicate n (example_payload ''cam-1'' ''tiger'' (9 / 10) 1700000000))"
  by (simp_all add: tiger_batch_def)

lemma tiger_batch_well_formed:
  "\<forall>p \<in> set (replicate n (example_payload ''cam-1'' ''tiger'' (9 / 10) 1700000000)).
     well_formed_item p"
  by (simp add: example_item_facts)

lemma tiger_batch_accepted:
  "length (filter accepts (replicate n (example_payload ''cam-1'' ''tiger'' (9 / 10) 1700000000))) = n"
  by (simp add: example_item_facts)

section \<open>The single-detection route\<close>

lemma POST_detection_rejected:
  assumes "authorized rq"
    and "truthy (device_id (payload rq)) = Some dev"
    and "truthy (class_name (payload rq)) = Some cn"
    and "\<not> isWildCat cn"
  shows "POST_detection now s rq =
           (s, \<lparr>http_status = 400, body = Failure ''Only wild cat species are allowed''\<rparr>)"
  using assms by (simp add: POST_detection_def Let_def)

lemma POST_detection_accepted:
  assumes "authorized rq"
    and "truthy (device_id (payload rq)) = Some dev"
    and "truthy (class_name (payload rq)) = Some cn"
    and "isWildCat cn"
    and "toISOString (timestamp' (payload rq)) = Inr ts"
  shows "snd (POST_detection now s rq) =
           \<lparr>http_status = 200,
            body = DetectionRecorded ''Detection recorded'' (event_id_of now dev (payload rq))
                     (id_or (detection_id (payload rq)) now)\<rparr>"
    and "detectionStore (fst (POST_detection now s rq)) =
           Some (take 1000
             (single_detection now (event_id_of now dev (payload rq)) dev
                (display_name (map_of (deviceStore s) dev) dev) cn ts (payload rq) # stored s))"
  using assms
  by (simp_all add: POST_detection_def Let_def event_id_of_def keep_last_1000_take
      single_detection_def split: option.splits)

lemma POST_detection_device:
  assumes "authorized rq"
    and "truthy (device_id (payload rq)) = Some dev"
    and "truthy (class_name (payload rq)) = Some cn"
    and "isWildCat cn"
    and "toISOString (timestamp' (payload rq)) = Inr ts"
    and "map_of (deviceStore s) dev = Some d"
  shows "map_of (deviceStore (fst (POST_detection now s rq))) dev = Some (touch_online now d)"
    and "broadcasts (fst (POST_detection now s rq)) = broadcasts s @ [touch_online now d]"
  using assms
  by (simp_all add: POST_detection_def Let_def update_conv' split: option.splits)

text \<open>
  A request that passes the allow-list but whose timestamp is not a valid date ends in
  the \<open>catch\<close> branch before anything is stored.
\<close>

lemma POST_detection_invalid_timestamp:
  assumes "authorized rq"
    and "truthy (device_id (payload rq)) = Some dev"
    and "truthy (class_name (payload rq)) = Some cn"
    and "isWildCat cn"
    and "toISOString (timestamp' (payload rq)) = Inl e"
  shows "POST_detection now s rq =
           (s, \<lparr>http_status = 500, body = Failure ''Failed to record detection''\<rparr>)"
  using assms by (simp add: POST_detection_def Let_def)

lemma touch_online_fields:
  "status (touch_online now d) = Online"
  "lastSeen (touch_online now d) = now"
  "counter (touch_online now d) = counter d + 1"
  by (simp_all add: touch_online_def counter_def)

text \<open>
  C1, as stated, fails: a well-formed, authorized POST of the class \<open>dog\<close> from
  \<open>cam-1\<close> is answered 400, and afterwards the audit endpoint reports no entry for
  \<open>cam-1\<close>. The route writes the rejection to the console only.
\<close>

theorem rejected_species_not_audited:
  "http_status (snd (POST_detection 1700000000000 empty_server dog_request)) = 400
   \<and> logs_count (GET_logs (fst (POST_detection 1700000000000 empty_server dog_request)) cam1_query) = 0"
  by (simp add: POST_detection_def dog_request_def example_payload_def not_isWildCat_dog
      GET_logs_def cam1_query_def empty_server_def Let_def)

text \<open>
  C1, amended. A well-formed, authorized single-detection POST whose class name fails
  the allow-list is answered 400 with \<open>success = false\<close>, stores no detection,
  broadcasts nothing, and leaves the audit log and the registry as they were.
\<close>

theorem rejected_species_changes_nothing:
  assumes "authorized rq"
    and "truthy (device_id (payload rq)) = Some dev"
    and "truthy (class_name (payload rq)) = Some cn"
    and "\<not> isWildCat cn"
  shows "http_status (snd (POST_detection now s rq)) = 400
     \<and> \<not> success (body (snd (POST_detection now s rq)))
     \<and> detectionStore (fst (POST_detection now s rq)) = detectionStore s
     \<and> broadcasts (fst (POST_detection now s rq)) = broadcasts s
     \<and> detectionEventLog (fst (POST_detection now s rq)) = detectionEventLog s
     \<and> deviceStore (fst (POST_detection now s rq)) = deviceStore s"
  using assms by (simp add: POST_detection_def Let_def)

text \<open>C1, amended: the \<open>dog\<close> request on the empty server satisfies the hypotheses.\<close>

theorem rejected_species_changes_nothing_witness:
  "authorized dog_request
   \<and> truthy (device_id (payload dog_request)) = Some ''cam-1''
   \<and> truthy (class_name (payload dog_request)) = Some ''dog''
   \<and> \<not> isWildCat ''dog''
   \<and> http_status (snd (POST_detection 1700000000000 empty_server dog_request)) = 400
   \<and> detectionEventLog (fst (POST_detection 1700000000000 empty_server dog_request)) = []"
proof -
  have h1: "authorized dog_request" by (simp add: dog_request_def)
  have h2: "truthy (device_id (payload dog_request)) = Some ''cam-1''"
    by (simp add: dog_request_def example_payload_def)
  have h3: "truthy (class_name (payload dog_request)) = Some ''dog''"
    by (simp add: dog_request_def example_payload_def)
  note h4 = not_isWildCat_dog
  from rejected_species_changes_nothing[OF h1 h2 h3 h4, of 1700000000000 empty_server]
  show ?thesis using h1 h2 h3 h4 by (simp add: empty_server_def)
qed

text \<open>
  C7, as stated, fails: the authorized \<open>Tiger\<close> POST from \<open>cam-1\<close> that carries no
  timestamp is answered 500 with \<open>success = false\<close>, and a following
  \<open>GET /detections\<close> for \<open>cam-1\<close> returns nothing. Only \<open>device_id\<close> and
  \<open>class_name\<close> are checked for presence; the missing timestamp makes \<open>toISOString\<close>
  throw while the record is built.
\<close>

theorem missing_timestamp_not_recorded:
  "http_status (snd (POST_detection 1700000000123 empty_server no_timestamp_request)) = 500
   \<and> success (body (snd (POST_detection 1700000000123 empty_server no_timestamp_request))) = False
   \<and> detections (GET_detections
         (fst (POST_detection 1700000000123 empty_server no_timestamp_request)) cam1_query) = []"
proof -
  have h1: "authorized no_timestamp_request" by (simp add: no_timestamp_request_def)
  have h2: "truthy (device_id (payload no_timestamp_request)) = Some ''cam-1''"
    by (simp add: no_timestamp_request_def example_payload_def)
  have h3: "truthy (class_name (payload no_timestamp_request)) = Some ''Tiger''"
    by (simp add: no_timestamp_request_def example_payload_def)
  have h5: "toISOString (timestamp' (payload no_timestamp_request)) = Inl RangeError"
    by (simp add: no_timestamp_request_def example_payload_def toISOString_def)
  have "POST_detection 1700000000123 empty_server no_timestamp_request =
          (empty_server, \<lparr>http_status = 500, body = Failure ''Failed to record detection''\<rparr>)"
    using h1 h2 h3 isWildCat_Tiger h5 by (rule POST_detection_invalid_timestamp)
  then show ?thesis
    by (simp add: GET_detections_def empty_server_def stored_def cam1_query_def parse_limit_def
        slice0_def Let_def)
qed

text \<open>
  C7, amended. An authorized POST whose class name lower-cases to an allow-listed species, with a
  device id and a timestamp that is a valid date, is answered 200 with \<open>success = true\<close>,
  an event id and a detection id. A following \<open>GET /detections\<close> for that device (with
  the default limit or any limit of at least 1) returns the new record first, with the
  class name as it was sent and the confidence unchanged; it is the only record when the
  store held none for the device. When the device is not in the registry, the record's
  display name is the raw device id.
\<close>

theorem accepted_detection_listed:
  assumes "authorized rq"
    and "truthy (device_id (payload rq)) = Some dev"
    and "truthy (class_name (payload rq)) = Some cn"
    and "toLowerCase cn \<in> set WILD_CAT_SPECIES"
    and "toISOString (timestamp' (payload rq)) = Inr ts"
    and "q_device_id q = Some dev"
    and "parse_limit (q_limit q) 50 = Num n"
    and "1 \<le> n"
  shows "\<exists>eid did d rest.
           snd (POST_detection now s rq) =
             \<lparr>http_status = 200, body = DetectionRecorded ''Detection recorded'' eid did\<rparr>
         \<and> detections (GET_detections (fst (POST_detection now s rq)) q) = d # rest
         \<and> className d = cn
         \<and> confidence d = confidence' (payload rq)
         \<and> deviceId d = dev
         \<and> timestamp d = ts
         \<and> eventId d = Some eid
         \<and> det_id d = did
         \<and> (map_of (deviceStore s) dev = None \<longrightarrow> deviceName d = dev)
         \<and> ((\<forall>x \<in> set (stored s). deviceId x \<noteq> dev) \<longrightarrow> rest = [])"
proof -
  let ?p = "payload rq"
  let ?d = "single_detection now (event_id_of now dev ?p) dev
              (display_name (map_of (deviceStore s) dev) dev) cn ts ?p"
  let ?s' = "fst (POST_detection now s rq)"
  have wild: "isWildCat cn" using assms(4) by (simp add: isWildCat_def)
  have dev_ne: "dev \<noteq> []" using truthy_Some[OF assms(2)] by simp
  have resp: "snd (POST_detection now s rq) =
           \<lparr>http_status = 200,
            body = DetectionRecorded ''Detection recorded'' (event_id_of now dev ?p)
                     (id_or (detection_id ?p) now)\<rparr>"
    using assms(1,2,3) wild assms(5) by (rule POST_detection_accepted(1))
  have st: "detectionStore ?s' = Some (take 1000 (?d # stored s))"
    using assms(1,2,3) wild assms(5) by (rule POST_detection_accepted(2))
  have tk: "take 1000 (?d # stored s) = ?d # take 999 (stored s)"
    by (simp add: take_Cons')
  have fields: "className ?d = cn" "deviceId ?d = dev" "confidence ?d = confidence' ?p"
    "timestamp ?d = ts" "eventId ?d = Some (event_id_of now dev ?p)"
    "det_id ?d = id_or (detection_id ?p) now"
    "deviceName ?d = display_name (map_of (deviceStore s) dev) dev"
    by (simp_all add: single_detection_def)
  let ?rest = "filter (\<lambda>x. isWildCat (className x) \<and> deviceId x = dev) (take 999 (stored s))"
  have m: "matching_detections ?s' q = ?d # ?rest"
    using dev_ne wild by (simp add: matching_detections_def assms(6) st tk fields)
  have "detections (GET_detections ?s' q) = slice0 (?d # ?rest) (Num n)"
    by (simp add: GET_detections_eq m assms(7))
  also have "\<dots> = take (nat n) (?d # ?rest)"
    using assms(8) by (simp add: slice0_nonneg)
  also have "\<dots> = ?d # take (nat n - 1) ?rest"
    using assms(8) by (simp add: take_Cons')
  finally have g: "detections (GET_detections ?s' q) = ?d # take (nat n - 1) ?rest" .
  have none: "(\<forall>x \<in> set (stored s). deviceId x \<noteq> dev) \<longrightarrow> take (nat n - 1) ?rest = []"
  proof
    assume a: "\<forall>x \<in> set (stored s). deviceId x \<noteq> dev"
    have "?rest = []"
      using a by (auto simp: filter_empty_conv dest: in_set_takeD)
    then show "take (nat n - 1) ?rest = []" by simp
  qed
  have name: "map_of (deviceStore s) dev = None \<longrightarrow> deviceName ?d = dev"
    by (simp add: single_detection_def display_name_def)
  show ?thesis
    by (intro exI conjI) (rule resp g fields(1-6) name none)+
qed

text \<open>
  C7, amended: the \<open>Tiger\<close> request from the unregistered \<open>cam-1\<close> on the empty
  server.
\<close>

theorem accepted_detection_listed_witness:
  "authorized tiger_request
   \<and> truthy (device_id (payload tiger_request)) = Some ''cam-1''
   \<and> truthy (class_name (payload tiger_request)) = Some ''Tiger''
   \<and> toLowerCase ''Tiger'' \<in> set WILD_CAT_SPECIES
   \<and> toISOString (timestamp' (payload tiger_request)) = Inr 1700000000000
   \<and> q_device_id cam1_query = Some ''cam-1''
   \<and> parse_limit (q_limit cam1_query) 50 = Num 50
   \<and> map_of (deviceStore empty_server) ''cam-1'' = None
   \<and> (\<exists>d. detections (GET_detections (fst (POST_detection 1700000000123 empty_server tiger_request))
               cam1_query) = [d]
          \<and> className d = ''Tiger'' \<and> confidence d = 92 / 100 \<and> deviceName d = ''cam-1'')
   \<and> http_status (snd (POST_detection 1700000000123 empty_server tiger_request)) = 200"
proof -
  have h1: "authorized tiger_request" by (simp add: tiger_request_def)
  have h2: "truthy (device_id (payload tiger_request)) = Some ''cam-1''"
    by (simp add: tiger_request_def example_payload_def)
  have h3: "truthy (class_name (payload tiger_request)) = Some ''Tiger''"
    by (simp add: tiger_request_def example_payload_def)
  have h4: "toLowerCase ''Tiger'' \<in> set WILD_CAT_SPECIES"
    by (simp add: toLowerCase_def lower_char_def WILD_CAT_SPECIES_def)
  have h5: "toISOString (timestamp' (payload tiger_request)) = Inr 1700000000000"
    by (simp add: tiger_request_def example_payload_def toISOString_def)
  have h6: "q_device_id cam1_query = Some ''cam-1''" by (simp add: cam1_query_def)
  have h7: "parse_limit (q_limit cam1_query) 50 = Num 50"
    by (simp add: cam1_query_def parse_limit_def)
  have h8: "(1::int) \<le> 50" by simp
  have e1: "map_of (deviceStore empty_server) ''cam-1'' = None" by (simp add: empty_server_def)
  have e2: "\<forall>x \<in> set (stored empty_server). deviceId x \<noteq> ''cam-1''"
    by (simp add: empty_server_def stored_def)
  have c: "confidence' (payload tiger_request) = 92 / 100"
    by (simp add: tiger_request_def example_payload_def)
  note ex = accepted_detection_listed[OF h1 h2 h3 h4 h5 h6 h7 h8, of 1700000000123 empty_server]
  have "\<exists>d. detections (GET_detections (fst (POST_detection 1700000000123 empty_server tiger_request))
               cam1_query) = [d]
          \<and> className d = ''Tiger'' \<and> confidence d = 92 / 100 \<and> deviceName d = ''cam-1''"
    using ex e1 e2 c by (elim exE conjE) auto
  moreover have "http_status (snd (POST_detection 1700000000123 empty_server tiger_request)) = 200"
    using ex by (elim exE conjE) simp
  ultimately show ?thesis using h1 h2 h3 h4 h5 h6 h7 e1 by (intro conjI)
qed

text \<open>
  On an accepted detection the single route replaces the registry entry of a registered
  device by the touched record, whose status is \<open>Online\<close> and whose \<open>lastSeen\<close> is
  \<open>now\<close>.
\<close>

lemma single_route_forces_online:
  assumes "authorized rq"
    and "truthy (device_id (payload rq)) = Some dev"
    and "truthy (class_name (payload rq)) = Some cn"
    and "isWildCat cn"
    and "toISOString (timestamp' (payload rq)) = Inr ts"
    and "map_of (deviceStore s) dev = Some d"
  shows "\<exists>d'. map_of (deviceStore (fst (POST_detection now s rq))) dev = Some d'
           \<and> status d' = Online \<and> lastSeen d' = now \<and> counter d' = counter d + 1"
  using POST_detection_device(1)[OF assms, of now] by (simp add: touch_online_fields)

section \<open>The batch route\<close>

lemma batch_detections_Nil [simp]: "batch_detections now dev dname k [] = []"
  by (simp add: batch_detections_def)

lemma batch_detections_Cons:
  "batch_detections now dev dname k (p # ps) =
     (if accepts p
      then item_detection now dev dname k p # batch_detections now dev dname (Suc k) ps
      else batch_detections now dev dname k ps)"
proof (cases "accepts p")
  case True
  have "[k ..< k + Suc n] = k # [Suc k ..< Suc k + n]" for n
    by (simp add: upt_conv_Cons)
  with True show ?thesis by (simp add: batch_detections_def)
next
  case False
  then show ?thesis by (simp add: batch_detections_def)
qed

lemma length_batch_detections [simp]:
  "length (batch_detections now dev dname k items) = length (filter accepts items)"
  by (simp add: batch_detections_def)

text \<open>On well-formed items the loop runs to its end, whatever it rejects on the way.\<close>

lemma batch_loop_well_formed:
  assumes "\<forall>p \<in> set items. well_formed_item p"
  shows "batch_loop now dev dname items arr k r =
           Inr (rev (batch_detections now dev dname k items) @ arr,
                k + length (filter accepts items),
                r + length (filter (\<lambda>p. \<not> accepts p) items))"
  using assms
proof (induction items arbitrary: arr k r)
  case Nil
  then show ?case by simp
next
  case (Cons p ps)
  from Cons.prems have wf: "well_formed_item p" and rest: "\<forall>q \<in> set ps. well_formed_item q"
    by simp_all
  from wf obtain cn where cn: "class_name p = Some cn"
    by (auto simp: well_formed_item_def split: option.splits)
  show ?case
  proof (cases "isWildCat cn")
    case False
    then have "\<not> accepts p" by (simp add: accepts_def cn)
    with False cn Cons.IH[OF rest] show ?thesis
      by (simp add: batch_detections_Cons)
  next
    case True
    then have acc: "accepts p" by (simp add: accepts_def cn)
    from wf True cn obtain ts where ts: "toISOString (timestamp' p) = Inr ts"
      using toISOString_cases[of "timestamp' p"] by (auto simp: well_formed_item_def)
    from True cn ts acc Cons.IH[OF rest] show ?thesis
      by (simp add: batch_detections_Cons item_detection_def)
  qed
qed

lemma batch_loop_Inr_well_formed:
  "batch_loop now dev dname items arr k r = Inr res \<Longrightarrow> \<forall>p \<in> set items. well_formed_item p"
proof (induction items arbitrary: arr k r)
  case Nil
  then show ?case by simp
next
  case (Cons p ps)
  show ?case
  proof (cases "class_name p")
    case None
    with Cons.prems show ?thesis by simp
  next
    case (Some cn)
    show ?thesis
    proof (cases "isWildCat cn")
      case False
      with Some Cons.prems have "batch_loop now dev dname ps arr k (r + 1) = Inr res" by simp
      from Cons.IH[OF this] Some False show ?thesis by (simp add: well_formed_item_def)
    next
      case True
      show ?thesis
      proof (cases "toISOString (timestamp' p)")
        case (Inl e)
        with Some True Cons.prems show ?thesis by simp
      next
        case (Inr ts)
        with Some True Cons.prems
        have "batch_loop now dev dname ps (batch_detection now dev dname cn ts k p # arr) (k + 1) r
              = Inr res"
          by simp
        from Cons.IH[OF this] Some True Inr show ?thesis by (simp add: well_formed_item_def)
      qed
    qed
  qed
qed

lemma POST_batch_ok:
  assumes "batch_authorized rq"
    and "truthy (batch_device_id rq) = Some dev"
    and "incomingDetections rq = Some items"
    and "\<forall>p \<in> set items. well_formed_item p"
  shows "snd (POST_batch now s rq) =
           \<lparr>http_status = 200,
            body = BatchRecorded
                     (show_nat (length (filter accepts items)) @ '' detections recorded'')
                     (length (filter accepts items))\<rparr>"
    and "detectionStore (fst (POST_batch now s rq)) =
           Some (take 1000
             (rev (batch_detections now dev (display_name (map_of (deviceStore s) dev) dev) 0 items)
              @ stored s))"
    and "deviceStore (fst (POST_batch now s rq)) =
           (case map_of (deviceStore s) dev of
              None \<Rightarrow> deviceStore s
            | Some d \<Rightarrow>
                AList.update dev (touch_batch now (length (filter accepts items)) d) (deviceStore s))"
    and "broadcasts (fst (POST_batch now s rq)) = broadcasts s"
    and "detectionEventLog (fst (POST_batch now s rq)) = detectionEventLog s"
  using assms
  by (simp_all add: POST_batch_def Let_def batch_loop_well_formed keep_last_1000_take
      split: option.splits)

lemma POST_batch_500_iff:
  assumes "batch_authorized rq"
    and "truthy (batch_device_id rq) = Some dev"
    and "incomingDetections rq = Some items"
  shows "http_status (snd (POST_batch now s rq)) \<noteq> 500
           \<longleftrightarrow> (\<forall>p \<in> set items. well_formed_item p)"
proof
  assume wf: "\<forall>p \<in> set items. well_formed_item p"
  show "http_status (snd (POST_batch now s rq)) \<noteq> 500"
    using POST_batch_ok(1)[OF assms wf, of now s] by simp
next
  assume ok: "http_status (snd (POST_batch now s rq)) \<noteq> 500"
  show "\<forall>p \<in> set items. well_formed_item p"
  proof (cases "batch_loop now dev (display_name (map_of (deviceStore s) dev) dev) items
                  (stored s) 0 0")
    case (Inl a)
    with ok assms show ?thesis
      by (simp add: POST_batch_def Let_def split: prod.splits)
  next
    case (Inr b)
    then show ?thesis by (rule batch_loop_Inr_well_formed)
  qed
qed

lemma touch_batch_fields:
  "status (touch_batch now a d) = status d"
  "lastSeen (touch_batch now a d) = now"
  "counter (touch_batch now a d) = counter d + a"
  by (simp_all add: touch_batch_def counter_def)

text \<open>
  C4 on the batch route: a batch with one accepted \<open>tiger\<close> for the registered device
  \<open>cam-1\<close>, whose status is \<open>Offline\<close>, is answered 200; it sets \<open>lastSeen\<close> and
  adds 1 to the counter, but the status stays \<open>Offline\<close> and nothing is broadcast.
\<close>

theorem batch_leaves_status_unchanged:
  "map_option status
     (map_of (deviceStore (fst (POST_batch 1700000000123 offline_server (tiger_batch 1)))) ''cam-1'')
     = Some Offline
   \<and> map_option lastSeen
     (map_of (deviceStore (fst (POST_batch 1700000000123 offline_server (tiger_batch 1)))) ''cam-1'')
     = Some 1700000000123
   \<and> map_option counter
     (map_of (deviceStore (fst (POST_batch 1700000000123 offline_server (tiger_batch 1)))) ''cam-1'')
     = Some 1
   \<and> broadcasts (fst (POST_batch 1700000000123 offline_server (tiger_batch 1))) = []
   \<and> http_status (snd (POST_batch 1700000000123 offline_server (tiger_batch 1))) = 200"
  by (simp add: POST_batch_def tiger_batch_def offline_server_def empty_server_def
      example_payload_def example_device_def isWildCat_tiger toISOString_def Let_def
      display_name_def stored_def touch_batch_def counter_def keep_last_1000_def)

text \<open>
  C3, as stated, fails: a batch of 1001 accepted items is answered with \<open>count = 1001\<close>,
  but the store keeps 1000 detections, so not all accepted items are stored.
\<close>

theorem batch_larger_than_capacity:
  "body (snd (POST_batch 1700000000123 empty_server (tiger_batch 1001))) =
     BatchRecorded (show_nat 1001 @ '' detections recorded'') 1001
   \<and> length (stored (fst (POST_batch 1700000000123 empty_server (tiger_batch 1001)))) = 1000"
proof -
  note ok = POST_batch_ok[OF tiger_batch_fields[of 1001] tiger_batch_well_formed[of 1001],
      where now = 1700000000123 and s = empty_server]
  have "body (snd (POST_batch 1700000000123 empty_server (tiger_batch 1001))) =
     BatchRecorded (show_nat 1001 @ '' detections recorded'') 1001"
    using ok(1) by (simp add: tiger_batch_accepted)
  moreover have "length (stored (fst (POST_batch 1700000000123 empty_server (tiger_batch 1001)))) = 1000"
    using ok(2) by (simp add: tiger_batch_accepted)
  ultimately show ?thesis by (rule conjI)
qed

text \<open>
  C3, amended. For a batch POST with a valid credential, a device id and well-formed
  items, of which \<open>a\<close> are accepted and the others rejected: the answer is 200 with
  \<open>count = a\<close>, wherever the rejected items stand in the batch; the store becomes the
  first 1000 entries of the accepted items' records, last arrived first, followed by its
  previous content; these records carry the class names and confidences of the accepted
  items in arrival order; all of them are in the store when \<open>a \<le> 1000\<close>; and the
  counter of a registered device grows by exactly \<open>a\<close>.
\<close>

theorem batch_partial_acceptance:
  assumes "batch_authorized rq"
    and "truthy (batch_device_id rq) = Some dev"
    and "incomingDetections rq = Some items"
    and "\<forall>p \<in> set items. well_formed_item p"
  shows "snd (POST_batch now s rq) =
           \<lparr>http_status = 200,
            body = BatchRecorded
                     (show_nat (length (filter accepts items)) @ '' detections recorded'')
                     (length (filter accepts items))\<rparr>
     \<and> stored (fst (POST_batch now s rq)) =
         take 1000
           (rev (batch_detections now dev (display_name (map_of (deviceStore s) dev) dev) 0 items)
            @ stored s)
     \<and> map className (batch_detections now dev (display_name (map_of (deviceStore s) dev) dev) 0 items)
         = map (\<lambda>p. case class_name p of Some cn \<Rightarrow> cn | None \<Rightarrow> []) (filter accepts items)
     \<and> map confidence (batch_detections now dev (display_name (map_of (deviceStore s) dev) dev) 0 items)
         = map confidence' (filter accepts items)
     \<and> (length (filter accepts items) \<le> 1000 \<longrightarrow>
          set (batch_detections now dev (display_name (map_of (deviceStore s) dev) dev) 0 items)
            \<subseteq> set (stored (fst (POST_batch now s rq))))
     \<and> (\<forall>d. map_of (deviceStore s) dev = Some d \<longrightarrow>
          (\<exists>d'. map_of (deviceStore (fst (POST_batch now s rq))) dev = Some d'
             \<and> counter d' = counter d + length (filter accepts items)))"
proof -
  let ?new = "batch_detections now dev (display_name (map_of (deviceStore s) dev) dev) 0 items"
  note ok = POST_batch_ok[OF assms, of now s]
  have st: "stored (fst (POST_batch now s rq)) = take 1000 (rev ?new @ stored s)"
    using ok(2) by simp
  have cls: "map className (batch_detections now dev dname k items)
         = map (\<lambda>p. case class_name p of Some cn \<Rightarrow> cn | None \<Rightarrow> []) (filter accepts items)"
    for dname k
    by (induction items arbitrary: k)
       (simp_all add: batch_detections_Cons item_detection_def batch_detection_def)
  have conf: "map confidence (batch_detections now dev dname k items)
         = map confidence' (filter accepts items)" for dname k
    by (induction items arbitrary: k)
       (simp_all add: batch_detections_Cons item_detection_def batch_detection_def)
  have sub: "length (filter accepts items) \<le> 1000 \<longrightarrow> set ?new \<subseteq> set (stored (fst (POST_batch now s rq)))"
  proof
    assume "length (filter accepts items) \<le> 1000"
    then have "take 1000 (rev ?new @ stored s) = rev ?new @ take (1000 - length ?new) (stored s)"
      by simp
    then show "set ?new \<subseteq> set (stored (fst (POST_batch now s rq)))"
      by (simp add: st)
  qed
  have dev: "\<forall>d. map_of (deviceStore s) dev = Some d \<longrightarrow>
          (\<exists>d'. map_of (deviceStore (fst (POST_batch now s rq))) dev = Some d'
             \<and> counter d' = counter d + length (filter accepts items))"
    by (simp add: ok(3) update_conv' touch_batch_fields)
  show ?thesis
    using ok(1) st cls conf sub dev by (intro conjI)
qed

text \<open>
  C3, amended: three wild-cat and two other entries for the registered \<open>cam-1\<close> give
  \<open>count = 3\<close> and raise its counter from 0 to 3.
\<close>

theorem batch_partial_acceptance_witness:
  "batch_authorized mixed_batch
   \<and> truthy (batch_device_id mixed_batch) = Some ''cam-1''
   \<and> (\<exists>items. incomingDetections mixed_batch = Some items
         \<and> list_all well_formed_item items
         \<and> length (filter accepts items) = 3
         \<and> length (filter (\<lambda>p. \<not> accepts p) items) = 2)
   \<and> body (snd (POST_batch 1700000000123 offline_server mixed_batch)) =
       BatchRecorded (show_nat 3 @ '' detections recorded'') 3
   \<and> map_option counter (map_of (deviceStore offline_server) ''cam-1'') = Some 0
   \<and> map_option counter
         (map_of (deviceStore (fst (POST_batch 1700000000123 offline_server mixed_batch))) ''cam-1'')
       = Some 3
   \<and> map className (stored (fst (POST_batch 1700000000123 offline_server mixed_batch)))
       = [''snow leopard'', ''Lion'', ''tiger'']"
proof -
  let ?items = "[example_payload ''cam-1'' ''tiger'' (9 / 10) 1700000000,
              example_payload ''cam-1'' ''dog'' (9 / 10) 1700000001,
              example_payload ''cam-1'' ''Lion'' (8 / 10) 1700000002,
              example_payload ''cam-1'' ''cat'' (7 / 10) 1700000003,
              example_payload ''cam-1'' ''snow leopard'' (6 / 10) 1700000004]"
  have h1: "batch_authorized mixed_batch" by (simp add: mixed_batch_def)
  have h2: "truthy (batch_device_id mixed_batch) = Some ''cam-1''" by (simp add: mixed_batch_def)
  have h3: "incomingDetections mixed_batch = Some ?items" by (simp add: mixed_batch_def)
  have acc: "accepts (example_payload dev cn c t) = isWildCat cn" for dev cn c t
    by (simp add: accepts_def example_payload_def)
  have wild: "isWildCat ''tiger''" "\<not> isWildCat ''dog''" "isWildCat ''Lion''"
    "\<not> isWildCat ''cat''" "isWildCat ''snow leopard''"
    by (simp_all add: wildcat_eval)
  have wf: "\<forall>p \<in> set ?items. well_formed_item p"
    by (simp add: well_formed_item_def example_payload_def wildcat_eval toISOString_def)
  have n3: "length (filter accepts ?items) = 3" by (simp add: acc wild)
  have n2: "length (filter (\<lambda>p. \<not> accepts p) ?items) = 2" by (simp add: acc wild)
  have d0: "map_of (deviceStore offline_server) ''cam-1'' = Some (example_device Offline 0)"
    by (simp add: offline_server_def empty_server_def)
  have c0: "counter (example_device Offline 0) = 0"
    by (simp add: counter_def example_device_def)
  have st0: "stored offline_server = []"
    by (simp add: offline_server_def empty_server_def stored_def)
  note inst = batch_partial_acceptance[OF h1 h2 h3 wf, where now = 1700000000123 and s = offline_server]
  have r: "body (snd (POST_batch 1700000000123 offline_server mixed_batch)) =
       BatchRecorded (show_nat 3 @ '' detections recorded'') 3"
    using inst n3 by simp
  have cnt: "map_option counter
         (map_of (deviceStore (fst (POST_batch 1700000000123 offline_server mixed_batch))) ''cam-1'')
       = Some 3"
    using inst d0 c0 n3 by auto
  have cls: "map className (stored (fst (POST_batch 1700000000123 offline_server mixed_batch)))
       = [''snow leopard'', ''Lion'', ''tiger'']"
  proof -
    let ?new = "batch_detections 1700000000123 ''cam-1''
        (display_name (map_of (deviceStore offline_server) ''cam-1'') ''cam-1'') 0 ?items"
    from inst have a: "stored (fst (POST_batch 1700000000123 offline_server mixed_batch)) =
        take 1000 (rev ?new @ stored offline_server)"
      and b: "map className ?new =
        map (\<lambda>p. case class_name p of Some cn \<Rightarrow> cn | None \<Rightarrow> []) (filter accepts ?items)"
      by blast+
    have "length ?new = 3" by (simp only: length_batch_detections n3)
    then have "take 1000 (rev ?new @ stored offline_server) = rev ?new" by (simp add: st0)
    then have "map className (stored (fst (POST_batch 1700000000123 offline_server mixed_batch)))
        = rev (map className ?new)"
      by (simp add: a rev_map)
    also have "\<dots> = [''snow leopard'', ''Lion'', ''tiger'']"
    proof -
      have "filter accepts ?items =
              [example_payload ''cam-1'' ''tiger'' (9 / 10) 1700000000,
               example_payload ''cam-1'' ''Lion'' (8 / 10) 1700000002,
               example_payload ''cam-1'' ''snow leopard'' (6 / 10) 1700000004]"
        by (simp add: acc wild)
      then show ?thesis unfolding b by (simp add: example_payload_def)
    qed
    finally show ?thesis .
  qed
  have ex: "\<exists>items. incomingDetections mixed_batch = Some items
         \<and> list_all well_formed_item items
         \<and> length (filter accepts items) = 3
         \<and> length (filter (\<lambda>p. \<not> accepts p) items) = 2"
    using h3 wf n3 n2 by (intro exI[of _ ?items] conjI) (simp_all add: list_all_iff)
  show ?thesis
    using h1 h2 ex r cnt cls d0 c0 by (intro conjI) simp_all
qed

section \<open>Sequences of requests\<close>

lemma POST_detection_stored:
  assumes "length (stored s) \<le> 1000"
  shows "stored (fst (POST_detection now s rq)) =
           take 1000 (rev (inserted s (Single now rq)) @ stored s)"
proof (cases "authorized rq")
  case False
  with assms show ?thesis by (simp add: POST_detection_def)
next
  case auth: True
  show ?thesis
  proof (cases "truthy (device_id (payload rq))")
    case None
    with assms auth show ?thesis by (simp add: POST_detection_def Let_def)
  next
    case dev: (Some dev)
    show ?thesis
    proof (cases "truthy (class_name (payload rq))")
      case None
      with assms auth dev show ?thesis by (simp add: POST_detection_def Let_def)
    next
      case cn: (Some cn)
      show ?thesis
      proof (cases "isWildCat cn")
        case False
        with assms auth dev cn show ?thesis
          by (simp add: POST_detection_rejected split: sum.splits)
      next
        case wild: True
        show ?thesis
        proof (cases "toISOString (timestamp' (payload rq))")
          case (Inl e)
          with assms auth dev cn wild show ?thesis by (simp add: POST_detection_def Let_def)
        next
          case (Inr ts)
          from POST_detection_accepted(2)[OF auth dev cn wild Inr, of now s]
          show ?thesis using auth dev cn wild Inr by simp
        qed
      qed
    qed
  qed
qed

lemma POST_batch_stored:
  assumes "length (stored s) \<le> 1000"
    and "http_status (snd (POST_batch now s rq)) \<noteq> 500"
  shows "stored (fst (POST_batch now s rq)) =
           take 1000 (rev (inserted s (Batch now rq)) @ stored s)"
proof (cases "batch_authorized rq")
  case False
  with assms show ?thesis by (simp add: POST_batch_def)
next
  case auth: True
  show ?thesis
  proof (cases "truthy (batch_device_id rq)")
    case None
    with assms auth show ?thesis by (simp add: POST_batch_def Let_def)
  next
    case dev: (Some dev)
    show ?thesis
    proof (cases "incomingDetections rq")
      case None
      with assms auth dev show ?thesis by (simp add: POST_batch_def Let_def)
    next
      case items: (Some items)
      from assms(2) POST_batch_500_iff[OF auth dev items, of now s]
      have wf: "\<forall>p \<in> set items. well_formed_item p" by simp
      from POST_batch_ok(2)[OF auth dev items wf, of now s]
      show ?thesis using auth dev items by simp
    qed
  qed
qed

lemma step_stored:
  assumes "length (stored s) \<le> 1000"
    and "http_status (snd (step s r)) \<noteq> 500"
  shows "stored (fst (step s r)) = take 1000 (rev (inserted s r) @ stored s)"
proof (cases r)
  case (Single now rq)
  with assms(1) POST_detection_stored[of s now rq] show ?thesis by simp
next
  case (Batch now rq)
  with assms POST_batch_stored[of s now rq] show ?thesis by simp
qed

lemma run_stored:
  assumes "length (stored s) \<le> 1000"
    and "no_failure s rs"
  shows "stored (run s rs) = take 1000 (rev (inserted_all s rs) @ stored s)"
  using assms
proof (induction rs arbitrary: s)
  case Nil
  then show ?case by simp
next
  case (Cons r rs)
  from Cons.prems have ok: "http_status (snd (step s r)) \<noteq> 500"
    and rest: "no_failure (fst (step s r)) rs" by simp_all
  have st: "stored (fst (step s r)) = take 1000 (rev (inserted s r) @ stored s)"
    using Cons.prems(1) ok by (rule step_stored)
  then have len: "length (stored (fst (step s r))) \<le> 1000" by simp
  have "stored (run s (r # rs)) =
          take 1000 (rev (inserted_all (fst (step s r)) rs) @ stored (fst (step s r)))"
    using Cons.IH[OF len rest] by simp
  also have "\<dots> =
          take 1000 (rev (inserted_all (fst (step s r)) rs) @ rev (inserted s r) @ stored s)"
    unfolding st by (rule take_append_take)
  finally show ?case by simp
qed

lemma no_failure_take: "no_failure s rs \<Longrightarrow> no_failure s (take n rs)"
proof (induction rs arbitrary: s n)
  case Nil
  then show ?case by simp
next
  case (Cons r rs)
  then show ?case by (cases n) simp_all
qed

text \<open>
  Both routes keep the allow-list invariant of the store, on every path: whatever a
  request sequence does, every stored detection has an allow-listed class name.
\<close>

lemma wild_only_simps [simp]:
  "wild_only []"
  "wild_only (d # ds) = (isWildCat (className d) \<and> wild_only ds)"
  by (auto simp: wild_only_def)

lemma wild_only_take: "wild_only ds \<Longrightarrow> wild_only (take n ds)"
  by (auto simp: wild_only_def dest: in_set_takeD)

lemma batch_loop_wild:
  assumes "wild_only arr"
  shows "case batch_loop now dev dname items arr k r of
           Inl (e, a) \<Rightarrow> wild_only a
         | Inr (a, n, m) \<Rightarrow> wild_only a"
  using assms
proof (induction items arbitrary: arr k r)
  case Nil
  then show ?case by simp
next
  case (Cons p ps)
  show ?case
  proof (cases "class_name p")
    case None
    with Cons.prems show ?thesis by simp
  next
    case (Some cn)
    show ?thesis
    proof (cases "isWildCat cn")
      case False
      with Some Cons.IH[OF Cons.prems] show ?thesis by simp
    next
      case True
      show ?thesis
      proof (cases "toISOString (timestamp' p)")
        case (Inl e)
        with Some True Cons.prems show ?thesis by simp
      next
        case (Inr ts)
        have "wild_only (batch_detection now dev dname cn ts k p # arr)"
          using True Cons.prems by (simp add: batch_detection_def)
        from Cons.IH[OF this] Some True Inr show ?thesis by simp
      qed
    qed
  qed
qed

lemma POST_detection_wild:
  assumes "wild_only (stored s)"
  shows "wild_only (stored (fst (POST_detection now s rq)))"
proof -
  have "wild_only (keep_last_1000 (single_detection now eid dev dname cn ts p # stored s))"
    if "isWildCat cn" for eid dev dname cn ts p
    using that assms by (simp add: keep_last_1000_take wild_only_take single_detection_def)
  then show ?thesis
    using assms
    by (auto simp: POST_detection_def Let_def split: option.splits sum.splits)
qed

lemma POST_batch_wild:
  assumes "wild_only (stored s)"
  shows "wild_only (stored (fst (POST_batch now s rq)))"
proof -
  have loop: "case batch_loop now dev dname items (stored s) 0 0 of
           Inl (e, a) \<Rightarrow> wild_only a
         | Inr (a, n, m) \<Rightarrow> wild_only a" for dev dname items
    using assms by (rule batch_loop_wild)
  show ?thesis
  proof (cases "batch_authorized rq")
    case False
    with assms show ?thesis by (simp add: POST_batch_def)
  next
    case auth: True
    show ?thesis
    proof (cases "truthy (batch_device_id rq)")
      case None
      with assms auth show ?thesis by (simp add: POST_batch_def)
    next
      case dev: (Some dev)
      show ?thesis
      proof (cases "incomingDetections rq")
        case None
        with assms auth dev show ?thesis by (simp add: POST_batch_def)
      next
        case items: (Some items)
        show ?thesis
        proof (cases "batch_loop now dev (display_name (map_of (deviceStore s) dev) dev) items
                        (stored s) 0 0")
          case (Inl a)
          obtain e arr where a: "a = (e, arr)" by (cases a)
          from loop[of dev "display_name (map_of (deviceStore s) dev) dev" items] Inl a
          have "wild_only arr" by simp
          with Inl a auth dev items assms show ?thesis
            by (cases "detectionStore s") (simp_all add: POST_batch_def Let_def stored_def)
        next
          case (Inr b)
          obtain arr n m where b: "b = (arr, n, m)" by (cases b)
          from loop[of dev "display_name (map_of (deviceStore s) dev) dev" items] Inr b
          have "wild_only arr" by simp
          then have "wild_only (keep_last_1000 arr)"
            by (simp add: keep_last_1000_take wild_only_take)
          with Inr b auth dev items show ?thesis
            by (simp add: POST_batch_def Let_def split: option.splits)
        qed
      qed
    qed
  qed
qed

lemma run_wild: "wild_only (stored s) \<Longrightarrow> wild_only (stored (run s rs))"
proof (induction rs arbitrary: s)
  case Nil
  then show ?case by simp
next
  case (Cons r rs)
  have "wild_only (stored (fst (step s r)))"
    using Cons.prems by (cases r) (simp_all add: POST_detection_wild POST_batch_wild)
  then show ?case using Cons.IH by simp
qed

lemma reachable_wild: "wild_only (stored (run empty_server rs))"
  by (rule run_wild) (simp add: empty_server_def stored_def)

text \<open>
  A batch that throws after an accepted item leaves that item in the array the store
  holds, and the \<open>splice\<close> is not reached: this is the path that \<open>no_failure\<close>
  excludes below.
\<close>

lemma failed_batch_keeps_partial_array:
  assumes "detectionStore s = Some ds"
  shows "http_status (snd (POST_batch now s broken_batch)) = 500
     \<and> length (stored (fst (POST_batch now s broken_batch))) = length ds + 1"
  using assms
  by (simp add: POST_batch_def broken_batch_def Let_def example_payload_def isWildCat_tiger
      toISOString_def stored_def)

text \<open>
  Start from a store of at most 1000 detections and handle any sequence of requests
  to the two write routes, none of which ends in a \<open>catch\<close> branch. After every
  request the store holds at most 1000 detections; at the end it holds the first 1000
  entries of the inserted records, last inserted first, followed by the initial content.
  So after \<open>1000 + k\<close> insertions into an empty store exactly 1000 remain, and they are
  the insertions after the first \<open>k\<close>: the oldest \<open>k\<close> were cut from the tail.
\<close>

lemma store_bounded_without_failure:
  assumes "length (stored s) \<le> 1000"
    and "no_failure s rs"
  shows "(\<forall>n \<le> length rs. length (stored (run s (take n rs))) \<le> 1000)
     \<and> stored (run s rs) = take 1000 (rev (inserted_all s rs) @ stored s)
     \<and> (stored s = [] \<and> length (inserted_all s rs) = 1000 + k \<longrightarrow>
           length (stored (run s rs)) = 1000
           \<and> stored (run s rs) = rev (drop k (inserted_all s rs)))"
proof (intro conjI allI impI)
  fix n
  have "stored (run s (take n rs)) = take 1000 (rev (inserted_all s (take n rs)) @ stored s)"
    using assms(1) no_failure_take[OF assms(2)] by (rule run_stored)
  then show "length (stored (run s (take n rs))) \<le> 1000"
    by (simp only: length_take min.cobounded2)
next
  show "stored (run s rs) = take 1000 (rev (inserted_all s rs) @ stored s)"
    using assms by (rule run_stored)
next
  assume a: "stored s = [] \<and> length (inserted_all s rs) = 1000 + k"
  have eq: "stored (run s rs) = take 1000 (rev (inserted_all s rs) @ stored s)"
    using assms by (rule run_stored)
  from a eq show "length (stored (run s rs)) = 1000" by simp
  from a eq show "stored (run s rs) = rev (drop k (inserted_all s rs))"
    by (simp add: rev_drop)
qed

text \<open>
  One single detection followed by a batch of 1000 accepted items, on the empty server,
  is \<open>1000 + 1\<close> insertions.
\<close>

lemma store_bounded_without_failure_example:
  "length (stored empty_server) \<le> 1000
   \<and> no_failure empty_server [Single 1700000000123 tiger_request, Batch 1700000000456 (tiger_batch 1000)]
   \<and> stored empty_server = []
   \<and> length (inserted_all empty_server
        [Single 1700000000123 tiger_request, Batch 1700000000456 (tiger_batch 1000)]) = 1000 + 1
   \<and> length (stored (run empty_server
        [Single 1700000000123 tiger_request, Batch 1700000000456 (tiger_batch 1000)])) = 1000
   \<and> stored (run empty_server
        [Single 1700000000123 tiger_request, Batch 1700000000456 (tiger_batch 1000)])
       = rev (drop 1 (inserted_all empty_server
           [Single 1700000000123 tiger_request, Batch 1700000000456 (tiger_batch 1000)]))"
proof -
  let ?rs = "[Single 1700000000123 tiger_request, Batch 1700000000456 (tiger_batch 1000)]"
  let ?s1 = "fst (POST_detection 1700000000123 empty_server tiger_request)"
  have h1: "authorized tiger_request" by (simp add: tiger_request_def)
  have h2: "truthy (device_id (payload tiger_request)) = Some ''cam-1''"
    by (simp add: tiger_request_def example_payload_def)
  have h3: "truthy (class_name (payload tiger_request)) = Some ''Tiger''"
    by (simp add: tiger_request_def example_payload_def)
  have h5: "toISOString (timestamp' (payload tiger_request)) = Inr 1700000000000"
    by (simp add: tiger_request_def example_payload_def toISOString_def)
  have e0: "stored empty_server = []" by (simp add: empty_server_def stored_def)
  have b0: "length (stored empty_server) \<le> 1000" by (simp add: e0)
  have s1: "http_status (snd (POST_detection 1700000000123 empty_server tiger_request)) \<noteq> 500"
    using POST_detection_accepted(1)[OF h1 h2 h3 isWildCat_Tiger h5, of 1700000000123 empty_server]
    by simp
  have s2: "http_status (snd (POST_batch 1700000000456 ?s1 (tiger_batch 1000))) \<noteq> 500"
    using POST_batch_500_iff[OF tiger_batch_fields[of 1000], of 1700000000456 ?s1]
      tiger_batch_well_formed[of 1000] by simp
  have nf: "no_failure empty_server ?rs" using s1 s2 by simp
  have len: "length (inserted_all empty_server ?rs) = 1000 + 1"
    using h1 h2 h3 h5 by (simp add: isWildCat_Tiger tiger_batch_fields tiger_batch_accepted)
  from store_bounded_without_failure[OF b0 nf, of 1]
  have "stored empty_server = [] \<and> length (inserted_all empty_server ?rs) = 1000 + 1 \<longrightarrow>
          length (stored (run empty_server ?rs)) = 1000
          \<and> stored (run empty_server ?rs) = rev (drop 1 (inserted_all empty_server ?rs))"
    by (elim conjE)
  with e0 len have "length (stored (run empty_server ?rs)) = 1000
          \<and> stored (run empty_server ?rs) = rev (drop 1 (inserted_all empty_server ?rs))"
    by blast
  with b0 nf e0 len show ?thesis by (intro conjI) blast+
qed

text \<open>
  C2 fails on a sequence with a failing batch. A batch of 1000 accepted items fills the
  empty store and is answered 200. The next batch, whose first item is accepted and
  whose second item has no timestamp, is answered 500; its first item stays in the
  array the store holds and the \<open>splice\<close> is skipped. The store then holds 1001
  detections, and \<open>GET /detections\<close> with a limit of 2000 returns all 1001.
\<close>

theorem failed_batch_exceeds_capacity:
  "http_status (snd (POST_batch 1700000000123 empty_server (tiger_batch 1000))) = 200
   \<and> http_status
        (snd (POST_batch 1700000000456
                (fst (POST_batch 1700000000123 empty_server (tiger_batch 1000))) broken_batch)) = 500
   \<and> length (stored (run empty_server
        [Batch 1700000000123 (tiger_batch 1000), Batch 1700000000456 broken_batch])) = 1001
   \<and> count (GET_detections
        (run empty_server [Batch 1700000000123 (tiger_batch 1000), Batch 1700000000456 broken_batch])
        all_query) = 1001"
proof -
  let ?s1 = "fst (POST_batch 1700000000123 empty_server (tiger_batch 1000))"
  let ?rs = "[Batch 1700000000123 (tiger_batch 1000), Batch 1700000000456 broken_batch]"
  let ?ds = "take 1000
      (rev (batch_detections 1700000000123 ''cam-1''
              (display_name (map_of (deviceStore empty_server) ''cam-1'') ''cam-1'') 0
              (replicate 1000 (example_payload ''cam-1'' ''tiger'' (9 / 10) 1700000000)))
       @ stored empty_server)"
  note ok = POST_batch_ok[OF tiger_batch_fields[of 1000] tiger_batch_well_formed[of 1000],
      where now = 1700000000123 and s = empty_server]
  have r1: "http_status (snd (POST_batch 1700000000123 empty_server (tiger_batch 1000))) = 200"
    using ok(1) by simp
  have st1: "detectionStore ?s1 = Some ?ds" by (rule ok(2))
  have len1: "length ?ds = 1000" by (simp add: tiger_batch_accepted)
  note fb = failed_batch_keeps_partial_array[OF st1, of 1700000000456]
  have r2: "http_status (snd (POST_batch 1700000000456 ?s1 broken_batch)) = 500"
    using fb by simp
  have run: "run empty_server ?rs = fst (POST_batch 1700000000456 ?s1 broken_batch)"
    by simp
  have len2: "length (stored (run empty_server ?rs)) = 1001"
    unfolding run using fb len1 by simp
  have w: "wild_only (stored (run empty_server ?rs))" by (rule reachable_wild)
  then have m: "matching_detections (run empty_server ?rs) all_query = stored (run empty_server ?rs)"
    by (simp add: matching_detections_def all_query_def wild_only_def filter_id_conv)
  have pl: "parse_limit (q_limit all_query) 50 = Num 2000"
    by (simp add: all_query_def parse_limit_def)
  have tk: "length xs = 1001 \<Longrightarrow> slice0 xs (Num 2000) = xs" for xs :: "Detection list"
    by (simp add: slice0_nonneg)
  have "detections (GET_detections (run empty_server ?rs) all_query)
          = slice0 (stored (run empty_server ?rs)) (Num 2000)"
    by (simp only: GET_detections_eq m pl)
  then have d: "detections (GET_detections (run empty_server ?rs) all_query)
          = stored (run empty_server ?rs)"
    by (simp only: tk[OF len2])
  have c: "count (GET_detections (run empty_server ?rs) all_query) = 1001"
  proof -
    have "count (GET_detections (run empty_server ?rs) all_query)
            = length (detections (GET_detections (run empty_server ?rs) all_query))"
      by (simp add: GET_detections_def Let_def)
    then show ?thesis by (simp only: d len2)
  qed
  from r1 r2 len2 c show ?thesis by (intro conjI)
qed

section \<open>The two read endpoints count differently\<close>

text \<open>
  C10. The audit endpoint reports as \<open>count\<close> the number of log entries that match the
  query, taken before \<open>slice\<close> cuts the list to \<open>limit\<close>; the detections endpoint reports
  the length of the list it returns, taken after \<open>slice\<close>.
\<close>

theorem count_before_and_after_truncation:
  "logs_count (GET_logs s q) = length (matching_logs s q)
   \<and> logs (GET_logs s q) = slice0 (matching_logs s q) (parse_limit (q_limit q) 100)
   \<and> detections (GET_detections s q') =
       slice0 (matching_detections s q') (parse_limit (q_limit q') 50)
   \<and> count (GET_detections s q') = length (detections (GET_detections s q'))"
  by (simp add: GET_logs_def GET_detections_def matching_logs_def matching_detections_def
      Let_def split: option.splits)

section \<open>Limits of \<open>GET /detections\<close>\<close>

lemma GET_detections_limit_nonneg:
  assumes "parse_limit (q_limit q) 50 = Num n" and "0 \<le> n"
  shows "detections (GET_detections s q) = take (nat n) (matching_detections s q)"
    and "length (detections (GET_detections s q)) = min (nat n) (length (matching_detections s q))"
  using assms by (simp_all add: GET_detections_eq slice0_nonneg)

lemma GET_detections_limit_zero:
  assumes "parse_limit (q_limit q) 50 = Num 0"
  shows "detections (GET_detections s q) = []"
  using assms by (simp add: GET_detections_eq slice0_nonneg)

lemma GET_detections_limit_negative:
  assumes "parse_limit (q_limit q) 50 = Num n" and "n < 0"
  shows "detections (GET_detections s q) =
           take (length (matching_detections s q) - nat (- n)) (matching_detections s q)"
  using assms by (simp add: GET_detections_eq slice0_neg)

lemma GET_detections_unknown_device:
  assumes "q_device_id q = Some dev" and "dev \<noteq> []"
    and "\<forall>d \<in> set (stored s). deviceId d \<noteq> dev"
  shows "detections (GET_detections s q) = []"
proof -
  have "matching_detections s q = []"
    using assms by (simp add: matching_detections_def filter_empty_conv)
  then show ?thesis by (simp add: GET_detections_eq slice0_def)
qed

text \<open>
  C5 at \<open>limit = -1\<close>: with two stored detections, \<open>slice(0, -1)\<close> drops the last
  element and returns the most recent one, where the claim requires the empty sequence.
\<close>

theorem negative_limit_counts_from_the_end:
  "detections (GET_detections two_stored \<lparr>q_limit = Some (Num (- 1)), q_device_id = None\<rparr>)
     = [example_detection ''cam-1'' ''tiger'' 2000]
   \<and> count (GET_detections two_stored \<lparr>q_limit = Some (Num (- 1)), q_device_id = None\<rparr>) = 1"
  by (simp add: GET_detections_def two_stored_def isWildCat_tiger isWildCat_lion
      parse_limit_def slice0_def Let_def empty_server_def)

section \<open>Online devices\<close>

text \<open>
  C9. \<open>onlineDevices\<close> counts exactly the devices with \<open>now - lastSeen < 120000\<close> ms:
  a device put into the registry adds one to the count when it satisfies the bound and
  nothing otherwise; one last seen 60 s ago is counted, one last seen 130 s ago is not.
\<close>

theorem online_devices_threshold:
  "onlineDevices (GET_stats gh now s) =
     length (filter (\<lambda>d. now - lastSeen d < 120000) (map snd (deviceStore s)))
   \<and> onlineDevices (GET_stats gh now (s\<lparr>deviceStore := ds1 @ (k, d) # ds2\<rparr>)) =
       onlineDevices (GET_stats gh now (s\<lparr>deviceStore := ds1 @ ds2\<rparr>))
         + (if now - lastSeen d < 120000 then 1 else 0)
   \<and> onlineDevices
         (GET_stats gh now (s\<lparr>deviceStore := ds1 @ (k, d\<lparr>lastSeen := now - 60000\<rparr>) # ds2\<rparr>)) =
       onlineDevices (GET_stats gh now (s\<lparr>deviceStore := ds1 @ ds2\<rparr>)) + 1
   \<and> onlineDevices
         (GET_stats gh now (s\<lparr>deviceStore := ds1 @ (k, d\<lparr>lastSeen := now - 130000\<rparr>) # ds2\<rparr>)) =
       onlineDevices (GET_stats gh now (s\<lparr>deviceStore := ds1 @ ds2\<rparr>))"
  by (simp add: GET_stats_def Let_def)

section \<open>Class distribution\<close>

lemma set_first_seen [simp]: "set (first_seen xs) = set xs"
  by (induction xs) auto

lemma distinct_first_seen [simp]: "distinct (first_seen xs)"
  by (induction xs) auto

lemma first_seen_snoc:
  "first_seen (xs @ [c]) = (if c \<in> set xs then first_seen xs else first_seen xs @ [c])"
  by (induction xs) auto

lemma tally_snoc:
  "tally cd (ds @ [d]) =
     AList.update (className d)
       ((case map_of (tally cd ds) (className d) of None \<Rightarrow> 0 | Some n \<Rightarrow> n) + 1)
       (tally cd ds)"
  by (induction ds arbitrary: cd) simp_all

lemma map_of_table:
  "map_of (map (\<lambda>x. (x, f x)) ks) k = (if k \<in> set ks then Some (f k) else None)"
  by (induction ks) auto

lemma update_table_new:
  "k \<notin> set ks \<Longrightarrow>
     AList.update k v (map (\<lambda>x. (x, f x)) ks) = map (\<lambda>x. (x, f x)) ks @ [(k, v)]"
  by (induction ks) auto

lemma update_table_old:
  "distinct ks \<Longrightarrow> k \<in> set ks \<Longrightarrow>
     AList.update k v (map (\<lambda>x. (x, f x)) ks) = map (\<lambda>x. (x, if x = k then v else f x)) ks"
  by (induction ks) (auto simp: update_table_new)

lemma tally_freq_table: "tally [] ds = freq_table (map className ds)"
proof (induction ds rule: rev_induct)
  case Nil
  then show ?case by (simp add: freq_table_def)
next
  case (snoc d ds)
  let ?cs = "map className ds"
  let ?c = "className d"
  show ?case
  proof (cases "?c \<in> set ?cs")
    case True
    have "tally [] (ds @ [d]) =
            AList.update ?c (count_list ?cs ?c + 1) (map (\<lambda>x. (x, count_list ?cs x)) (first_seen ?cs))"
      using True by (simp add: tally_snoc snoc.IH freq_table_def map_of_table)
    also have "\<dots> = map (\<lambda>x. (x, if x = ?c then count_list ?cs ?c + 1 else count_list ?cs x))
                        (first_seen ?cs)"
      using True by (simp add: update_table_old)
    also have "\<dots> = map (\<lambda>x. (x, count_list (?cs @ [?c]) x)) (first_seen ?cs)"
      by (rule map_cong) auto
    finally show ?thesis using True by (simp add: freq_table_def first_seen_snoc)
  next
    case False
    have "tally [] (ds @ [d]) =
            AList.update ?c 1 (map (\<lambda>x. (x, count_list ?cs x)) (first_seen ?cs))"
      using False by (simp add: tally_snoc snoc.IH freq_table_def map_of_table)
    also have "\<dots> = map (\<lambda>x. (x, count_list ?cs x)) (first_seen ?cs) @ [(?c, 1)]"
      using False by (simp add: update_table_new)
    also have "map (\<lambda>x. (x, count_list ?cs x)) (first_seen ?cs)
                 = map (\<lambda>x. (x, count_list (?cs @ [?c]) x)) (first_seen ?cs)"
      using False by (intro map_cong) auto
    finally show ?thesis using False by (simp add: freq_table_def first_seen_snoc)
  qed
qed

lemma classDistribution_eq:
  "classDistribution (GET_stats gh now s) = sort_entries (freq_table (classes24h now s))"
  by (simp add: GET_stats_def Let_def tally_freq_table classes24h_def)

lemma distinct_map_insort_key:
  "distinct (map g (insort_key f x xs)) = (g x \<notin> g ` set xs \<and> distinct (map g xs))"
  by (induction xs) (auto simp: set_insort_key)

lemma distinct_map_sort_key: "distinct (map g (sort_key f xs)) = distinct (map g xs)"
  by (induction xs) (simp_all add: distinct_map_insort_key)

text \<open>
  C8. \<open>classDistribution\<close> is the frequency map of the class names of the detections
  of the trailing 24 hours only: its entries are exactly the pairs of such a class name
  and its number of occurrences, each name once; the counts descend; and the entries
  with one and the same count stand in the order in which their names are first
  encountered in the 24-hour list. For the names tiger, lion, tiger, lion, tiger it is
  tiger: 3 followed by lion: 2.
\<close>

theorem class_distribution_order:
  "set (classDistribution (GET_stats gh now s)) =
      {(c, count_list (classes24h now s) c) | c. c \<in> set (classes24h now s)}
   \<and> distinct (map fst (classDistribution (GET_stats gh now s)))
   \<and> sorted_wrt (\<lambda>e e'. snd e \<ge> snd e') (classDistribution (GET_stats gh now s))
   \<and> (\<forall>k. filter (\<lambda>e. snd e = k) (classDistribution (GET_stats gh now s)) =
            filter (\<lambda>e. snd e = k) (freq_table (classes24h now s)))
   \<and> (classes24h now s = [''tiger'', ''lion'', ''tiger'', ''lion'', ''tiger''] \<longrightarrow>
        classDistribution (GET_stats gh now s) = [(''tiger'', 3), (''lion'', 2)])"
proof (intro conjI allI impI)
  let ?cs = "classes24h now s"
  let ?R = "classDistribution (GET_stats gh now s)"
  have R: "?R = sort_key (\<lambda>e. - int (snd e)) (freq_table ?cs)"
    by (simp add: classDistribution_eq sort_entries_def)
  show "set ?R = {(c, count_list ?cs c) | c. c \<in> set ?cs}"
    by (auto simp: R freq_table_def)
  have "distinct (map fst (freq_table ?cs))"
    by (simp add: freq_table_def comp_def)
  then show "distinct (map fst ?R)"
    by (simp only: R distinct_map_sort_key)
  have "sorted (map (\<lambda>e. - int (snd e)) ?R)"
    unfolding R by (rule sorted_sort_key)
  then show "sorted_wrt (\<lambda>e e'. snd e \<ge> snd e') ?R"
    by (simp add: sorted_map)
  show "filter (\<lambda>e. snd e = k) ?R = filter (\<lambda>e. snd e = k) (freq_table ?cs)" for k
  proof -
    have "filter (\<lambda>e. - int (snd e) = - int k) ?R
            = filter (\<lambda>e. - int (snd e) = - int k) (freq_table ?cs)"
      unfolding R by (rule sort_key_stable)
    then show ?thesis by simp
  qed
  assume "?cs = [''tiger'', ''lion'', ''tiger'', ''lion'', ''tiger'']"
  then show "?R = [(''tiger'', 3), (''lion'', 2)]"
    by (simp add: R freq_table_def)
qed

text \<open>
  C8: five detections of the last 24 hours, and a leopard older than that which the
  distribution leaves out.
\<close>

theorem class_distribution_order_witness:
  "classes24h 1700000000000 five_stored = [''tiger'', ''lion'', ''tiger'', ''lion'', ''tiger'']
   \<and> classDistribution (GET_stats utc_hours 1700000000000 five_stored) = [(''tiger'', 3), (''lion'', 2)]"
proof -
  have h: "classes24h 1700000000000 five_stored = [''tiger'', ''lion'', ''tiger'', ''lion'', ''tiger'']"
    by (simp add: classes24h_def five_stored_def empty_server_def
        isWildCat_tiger isWildCat_lion isWildCat_leopard)
  from class_distribution_order[of utc_hours 1700000000000 five_stored] h
  show ?thesis by blast
qed

section \<open>Hourly histogram\<close>

lemma length_hourly_loop [simp]: "length (hourly_loop gh now ds i) = Suc i"
  by (induction i) simp_all

lemma nth_hourly_loop:
  "k \<le> i \<Longrightarrow> hourly_loop gh now ds i ! k = hour_bucket gh now ds (i - k)"
proof (induction i arbitrary: k)
  case 0
  then show ?case by simp
next
  case (Suc i)
  then show ?case by (cases k) simp_all
qed

lemma hour_bucket_eq:
  "hour_bucket gh now ds i =
     \<lparr>hour = show_nat (gh (now - int i * 3600000)) @ '':00'',
      bucket_count =
        length (filter (\<lambda>d. now - (int i + 1) * 3600000 \<le> timestamp d
                           \<and> timestamp d < now - int i * 3600000) ds)\<rparr>"
proof -
  have "(int i + 1) * 60 * 60 * 1000 = (int i + 1) * 3600000"
    and "int i * 60 * 60 * 1000 = int i * 3600000"
    by simp_all
  then show ?thesis by (simp only: hour_bucket_def Let_def)
qed

text \<open>
  C6. On a store that holds allow-listed detections only (every store the write routes
  produce), \<open>hourlyDetections\<close> has exactly 24 buckets, oldest first: position \<open>k\<close>
  holds the bucket of \<open>i = 23 - k\<close>, labelled by the clock hour of its end
  \<open>now - i\<close> h, and counting the detections with timestamp in
  \<open>[now - (i + 1) h, now - i h)\<close> among all stored detections, not among those of
  \<open>detections24h\<close>.
\<close>

theorem hourly_histogram:
  assumes "wild_only (stored s)"
  shows "length (hourlyDetections (GET_stats gh now s)) = 24
     \<and> (\<forall>k < 24. hourlyDetections (GET_stats gh now s) ! k =
          \<lparr>hour = show_nat (gh (now - int (23 - k) * 3600000)) @ '':00'',
           bucket_count =
             length (filter (\<lambda>d. now - (int (23 - k) + 1) * 3600000 \<le> timestamp d
                                \<and> timestamp d < now - int (23 - k) * 3600000)
                       (stored s))\<rparr>)"
proof -
  have all: "filter (\<lambda>d. isWildCat (className d)) (stored s) = stored s"
    using assms by (simp add: filter_id_conv wild_only_def)
  have H: "hourlyDetections (GET_stats gh now s) = hourly_loop gh now (stored s) 23"
    by (simp add: GET_stats_def Let_def all)
  show ?thesis
  proof (intro conjI allI impI)
    show "length (hourlyDetections (GET_stats gh now s)) = 24"
      by (simp add: H)
  next
    fix k :: nat
    assume "k < 24"
    then have "k \<le> 23" by simp
    then show "hourlyDetections (GET_stats gh now s) ! k =
          \<lparr>hour = show_nat (gh (now - int (23 - k) * 3600000)) @ '':00'',
           bucket_count =
             length (filter (\<lambda>d. now - (int (23 - k) + 1) * 3600000 \<le> timestamp d
                                \<and> timestamp d < now - int (23 - k) * 3600000)
                       (stored s))\<rparr>"
      by (simp only: H nth_hourly_loop hour_bucket_eq)
  qed
qed

text \<open>
  C6: on a server in UTC at 2023-11-14 22:13:20, the oldest bucket ends 23 hours
  earlier and is labelled 23:00; a detection exactly 24 hours old is counted in it, although
  \<open>totalDetections24h\<close>, which requires \<open>timestamp > now - 24 h\<close>, does not count it.
\<close>

theorem hourly_histogram_witness:
  "wild_only (stored day_old_stored)
   \<and> length (hourlyDetections (GET_stats utc_hours 1700000000000 day_old_stored)) = 24
   \<and> bucket_count (hourlyDetections (GET_stats utc_hours 1700000000000 day_old_stored) ! 0) = 1
   \<and> hour (hourlyDetections (GET_stats utc_hours 1700000000000 day_old_stored) ! 0)
       = ''23:00''
   \<and> totalDetections24h (GET_stats utc_hours 1700000000000 day_old_stored) = 0"
proof -
  have h: "wild_only (stored day_old_stored)"
    by (simp add: day_old_stored_def empty_server_def isWildCat_tiger)
  have z: "(0::nat) < 24" by simp
  from hourly_histogram[OF h, of utc_hours 1700000000000]
  have len: "length (hourlyDetections (GET_stats utc_hours 1700000000000 day_old_stored)) = 24"
    and b: "hourlyDetections (GET_stats utc_hours 1700000000000 day_old_stored) ! 0 =
          \<lparr>hour = show_nat (utc_hours (1700000000000 - int (23 - 0) * 3600000)) @ '':00'',
           bucket_count =
             length (filter (\<lambda>d. 1700000000000 - (int (23 - 0) + 1) * 3600000 \<le> timestamp d
                                \<and> timestamp d < 1700000000000 - int (23 - 0) * 3600000)
                       (stored day_old_stored))\<rparr>"
    using z by blast+
  have c: "bucket_count (hourlyDetections (GET_stats utc_hours 1700000000000 day_old_stored) ! 0) = 1"
    unfolding b by (simp add: day_old_stored_def empty_server_def)
  have l: "hour (hourlyDetections (GET_stats utc_hours 1700000000000 day_old_stored) ! 0)
       = ''23:00''"
    unfolding b by (simp add: utc_hours_def show_nat.simps)
  have t: "totalDetections24h (GET_stats utc_hours 1700000000000 day_old_stored) = 0"
    by (simp add: GET_stats_def Let_def day_old_stored_def empty_server_def isWildCat_tiger)
  from h len c l t show ?thesis by (intro conjI)
qed

end
